theory Spec2Isabelle
  imports Complex_Main
begin

section \<open>Python values used by examples/calibrate.py\<close>

text \<open>
  The script drives an external camera driver (module \<open>ids\<close>), averages frames with
  numpy and stores every sweep point with scipy. Python's unbounded integers are \<open>int\<close>.
  Python floats are idealised as exact rationals (\<open>rat\<close>): rounding is outside
  the model, the overflow of an integer too large for a float is an error of it. Every exception the script can meet is a value of \<open>error\<close>.
  Two of them stand for what Python has no exception for: \<open>NotANumber\<close> is numpy's
  nan (the mean of an empty batch), which no rational is, and \<open>DanglingReference\<close> is
  the use of a reference to no object, which cannot arise in Python and is never
  reached from a store whose references are live.
\<close>

datatype error =
    ZeroDivisionError
  | OverflowError
  | IndexError
  | KeyError
  | TypeError
  | ValueError
  | NameError
  | NotANumber
  | DanglingReference
  | DriverError string

text \<open>
  A numpy array: its shape and its elements in row-major order. A frame delivered by the
  driver holds raw integer samples; an image returned by \<open>capture\<close> holds floats.
\<close>

record 'a ndarray =
  nd_shape :: "nat list"
  nd_data :: "'a list"

type_synonym frame = "int ndarray"
type_synonym image = "rat ndarray"

text \<open>A Python dict with string keys, in insertion order; the values the driver's info
  record holds are strings and integers.\<close>

datatype pyval = PyStr string | PyInt int

type_synonym pydict = "(string \<times> pyval) list"

datatype color_mode = COLOR_BAYER_8

text \<open>The value stored under one field name of a .mat file.\<close>

datatype mat_value = MatArray image | MatFloat rat | MatInt int

subsection \<open>numpy\<close>

text \<open>\<open>np.array(imgs)\<close>: stack a list of equally shaped arrays along a new first axis.
  The empty list gives an empty array of shape \<open>(0,)\<close>.\<close>

definition np_array :: "'a ndarray list \<Rightarrow> error + 'a ndarray" where
  "np_array xs =
     (case xs of
        [] \<Rightarrow> Inr \<lparr>nd_shape = [0], nd_data = []\<rparr>
      | x # rest \<Rightarrow>
          if list_all (\<lambda>y. nd_shape y = nd_shape x \<and> length (nd_data y) = length (nd_data x)) rest
          then Inr \<lparr>nd_shape = length xs # nd_shape x, nd_data = concat (map nd_data xs)\<rparr>
          else Inl ValueError)"

text \<open>\<open>np.mean(imgs, axis=0)\<close>: element \<open>k\<close> of the result is the sum of element \<open>k\<close> of
  every array of the batch, divided by the size of the batch. On an empty batch numpy
  answers nan.\<close>

definition np_mean_axis0 :: "frame list \<Rightarrow> error + image" where
  "np_mean_axis0 imgs =
     (case np_array imgs of
        Inl e \<Rightarrow> Inl e
      | Inr a \<Rightarrow>
          (case imgs of
             [] \<Rightarrow> Inl NotANumber
           | x # rest \<Rightarrow>
               Inr \<lparr>nd_shape = tl (nd_shape a),
                    nd_data = map (\<lambda>k. (\<Sum>f\<leftarrow>imgs. rat_of_int (nd_data f ! k)) / rat_of_nat (length imgs))
                                  [0..<length (nd_data x)]\<rparr>))"

text \<open>\<open>np.squeeze(imgs).astype(np.float)\<close>: stack, drop every axis of length one, convert
  the elements to float (\<open>np.float\<close> being the float type, as in the numpy the script
  was written for).\<close>

definition np_squeeze_astype_float :: "frame list \<Rightarrow> error + image" where
  "np_squeeze_astype_float imgs =
     (case np_array imgs of
        Inl e \<Rightarrow> Inl e
      | Inr a \<Rightarrow> Inr \<lparr>nd_shape = filter (\<lambda>n. n \<noteq> 1) (nd_shape a),
                       nd_data = map rat_of_int (nd_data a)\<rparr>)"

subsection \<open>String formatting\<close>

definition digit_char :: "nat \<Rightarrow> char" where
  "digit_char n = ''0123456789'' ! (n mod 10)"

fun str_nat :: "nat \<Rightarrow> string" where
  "str_nat n = (if n < 10 then [digit_char n] else str_nat (n div 10) @ [digit_char (n mod 10)])"

declare str_nat.simps [simp del]

text \<open>\<open>"{}".format(i)\<close> for an integer.\<close>

definition str_int :: "int \<Rightarrow> string" where
  "str_int i = (if i < 0 then CHR ''-'' # str_nat (nat (- i)) else str_nat (nat i))"

text \<open>\<open>"{:0w}".format(i)\<close>: sign-aware zero padding to at least \<open>w\<close> characters.\<close>

definition zfill :: "nat \<Rightarrow> string \<Rightarrow> string" where
  "zfill w s = replicate (w - length s) CHR ''0'' @ s"

definition format_zero_padded :: "nat \<Rightarrow> int \<Rightarrow> string" where
  "format_zero_padded w i =
     (if i < 0 then CHR ''-'' # zfill (w - 1) (str_nat (nat (- i))) else zfill w (str_nat (nat i)))"

text \<open>\<open>"{}".format(b)\<close> for a bool.\<close>

definition str_bool :: "bool \<Rightarrow> string" where
  "str_bool b = (if b then ''True'' else ''False'')"

text \<open>\<open>"exp_{:07}_gain_{:03}_boost_{}".format(exposure, gain, gain_boost)\<close>\<close>

definition base_name :: "int \<Rightarrow> int \<Rightarrow> bool \<Rightarrow> string" where
  "base_name exposure gain gain_boost =
     ''exp_'' @ format_zero_padded 7 exposure @ ''_gain_'' @ format_zero_padded 3 gain
       @ ''_boost_'' @ str_bool gain_boost"

text \<open>\<open>os.path.join(a, b)\<close> on a POSIX system.\<close>

definition path_join :: "string \<Rightarrow> string \<Rightarrow> string" where
  "path_join a b =
     (if b \<noteq> [] \<and> hd b = CHR ''/'' then b
      else if a = [] \<or> last a = CHR ''/'' then a @ b
      else a @ ''/'' @ b)"

text \<open>Reading a decimal numeral back: the value of a digit and of a string of digits.
  They serve to state that the formatting of a name loses nothing.\<close>

definition digit_value :: "char \<Rightarrow> nat" where
  "digit_value c = of_char c - 48"

definition decimal_value :: "string \<Rightarrow> nat" where
  "decimal_value s = foldl (\<lambda>a c. 10 * a + digit_value c) 0 s"

definition is_digit :: "char \<Rightarrow> bool" where
  "is_digit c \<longleftrightarrow> c \<in> set ''0123456789''"

section \<open>The outside world\<close>

text \<open>
  Everything the script does to the outside is recorded, in order, in a trace: every call
  into the driver with its arguments (and, for a call that returns a value, the value
  returned, \<open>None\<close> when the call raised), every line printed, every directory made,
  every file stored and the final display.
\<close>

datatype event =
    CameraOpen nat
  | SetAutoWhiteBalance bool
  | SetContinuousCapture bool
  | SetAutoExposure bool
  | SetExposure rat
  | SetColorMode color_mode
  | SetGainBoost bool
  | SetGain int
  | SetPixelclock int
  | SetFramerate rat
  | GetPixelclockRange "int list option"
  | GetExposure "rat option"
  | GetGain "int option"
  | GetInfo "nat option"
  | Next "frame option"
  | Print string
  | Makedirs string
  | JsonDump string pydict
  | SaveMat string "(string \<times> mat_value) list"
  | Imshow image
  | PltShow

text \<open>
  The state the script runs in: the driver's own state \<open>dev\<close> (the device and the
  session), the store of dict objects \<open>heap\<close> (a reference is an index into it), the
  directories that exist, and the trace so far.
\<close>

record 's world =
  dev :: 's
  heap :: "pydict list"
  dirs :: "string list"
  trace :: "event list"

type_synonym ('a, 's) prog = "'s world \<Rightarrow> (error + 'a) \<times> 's world"

definition ret :: "'a \<Rightarrow> ('a, 's) prog" where
  "ret a w = (Inr a, w)"

definition lift :: "error + 'a \<Rightarrow> ('a, 's) prog" where
  "lift r w = (r, w)"

definition bnd :: "('a, 's) prog \<Rightarrow> ('a \<Rightarrow> ('b, 's) prog) \<Rightarrow> ('b, 's) prog" where
  "bnd m f w = (case m w of (Inl e, w1) \<Rightarrow> (Inl e, w1) | (Inr a, w1) \<Rightarrow> f a w1)"

text \<open>\<open>try: body finally: cleanup\<close>. The cleanup runs whatever the body did; an exception
  of the cleanup replaces the body's outcome.\<close>

definition try_finally :: "('a, 's) prog \<Rightarrow> (unit, 's) prog \<Rightarrow> ('a, 's) prog" where
  "try_finally body cleanup w =
     (case body w of
        (r, w1) \<Rightarrow> (case cleanup w1 of (Inl e, w2) \<Rightarrow> (Inl e, w2) | (Inr _, w2) \<Rightarrow> (r, w2)))"

definition emit :: "event \<Rightarrow> (unit, 's) prog" where
  "emit ev w = (Inr (), w\<lparr>trace := trace w @ [ev]\<rparr>)"

subsection \<open>The camera driver\<close>

text \<open>
  The driver \<open>ids.Camera\<close> is not part of the repository: it is a parameter of the model.
  Every operation acts on the driver's state and either returns or raises; a raising
  operation may still have changed the state.
\<close>

record ('s, 'm) driver =
  drv_open :: "nat \<Rightarrow> 's \<Rightarrow> (error + unit) \<times> 's"
  drv_set_auto_white_balance :: "bool \<Rightarrow> 's \<Rightarrow> (error + unit) \<times> 's"
  drv_set_continuous_capture :: "bool \<Rightarrow> 's \<Rightarrow> (error + unit) \<times> 's"
  drv_set_auto_exposure :: "bool \<Rightarrow> 's \<Rightarrow> (error + unit) \<times> 's"
  drv_set_exposure :: "rat \<Rightarrow> 's \<Rightarrow> (error + unit) \<times> 's"
  drv_get_exposure :: "'s \<Rightarrow> (error + rat) \<times> 's"
  drv_set_color_mode :: "color_mode \<Rightarrow> 's \<Rightarrow> (error + unit) \<times> 's"
  drv_set_gain_boost :: "bool \<Rightarrow> 's \<Rightarrow> (error + unit) \<times> 's"
  drv_set_gain :: "int \<Rightarrow> 's \<Rightarrow> (error + unit) \<times> 's"
  drv_get_gain :: "'s \<Rightarrow> (error + int) \<times> 's"
  drv_set_pixelclock :: "int \<Rightarrow> 's \<Rightarrow> (error + unit) \<times> 's"
  drv_get_pixelclock_range :: "'s \<Rightarrow> (error + int list) \<times> 's"
  drv_set_framerate :: "rat \<Rightarrow> 's \<Rightarrow> (error + unit) \<times> 's"
  drv_get_info :: "'s \<Rightarrow> (error + nat) \<times> 's"
  drv_next :: "'s \<Rightarrow> (error + frame \<times> 'm) \<times> 's"

text \<open>A call into the driver that returns nothing, and one that returns a value.\<close>

definition call :: "event \<Rightarrow> ('s \<Rightarrow> (error + 'a) \<times> 's) \<Rightarrow> ('a, 's) prog" where
  "call ev f w = (case f (dev w) of (r, s) \<Rightarrow> (r, w\<lparr>dev := s, trace := trace w @ [ev]\<rparr>))"

definition outcome :: "error + 'a \<Rightarrow> 'a option" where
  "outcome r = (case r of Inl e \<Rightarrow> None | Inr a \<Rightarrow> Some a)"

definition query :: "('b option \<Rightarrow> event) \<Rightarrow> ('a \<Rightarrow> 'b) \<Rightarrow> ('s \<Rightarrow> (error + 'a) \<times> 's) \<Rightarrow> ('a, 's) prog" where
  "query ev g f w =
     (case f (dev w) of (r, s) \<Rightarrow> (r, w\<lparr>dev := s, trace := trace w @ [ev (map_option g (outcome r))]\<rparr>))"

section \<open>class camera\<close>

definition IDS_MAX_PIXEL_CLOCK :: int where
  "IDS_MAX_PIXEL_CLOCK = 30"

text \<open>\<open>self._cam.pixelclock_range[0]\<close>\<close>

definition pixelclock_range_0 :: "('s, 'm) driver \<Rightarrow> (int, 's) prog" where
  "pixelclock_range_0 d =
     bnd (query GetPixelclockRange id (drv_get_pixelclock_range d))
       (\<lambda>r. lift (case r of [] \<Rightarrow> Inl IndexError | lo # _ \<Rightarrow> Inr lo))"

text \<open>Lines 63--76 of \<open>capture\<close>: the pixel clock.\<close>

definition capture_pixelclock :: "('s, 'm) driver \<Rightarrow> int \<Rightarrow> (unit, 's) prog" where
  "capture_pixelclock d exposure_us =
     (if exposure_us > 1000 then
        bnd (pixelclock_range_0 d) (\<lambda>lo.
        bnd (emit (Print (''Setting pixel clock to '' @ str_int lo @ ''.''))) (\<lambda>_.
        bnd (pixelclock_range_0 d) (\<lambda>lo'.
        call (SetPixelclock lo') (drv_set_pixelclock d lo'))))
      else
        bnd (emit (Print (''Setting pixel clock to '' @ str_int IDS_MAX_PIXEL_CLOCK @ ''.''))) (\<lambda>_.
        call (SetPixelclock IDS_MAX_PIXEL_CLOCK) (drv_set_pixelclock d IDS_MAX_PIXEL_CLOCK)))"

text \<open>
  Converting a Python integer to a float raises \<open>OverflowError\<close> (int too large to
  convert to float) when the integer, rounded to the nearest float, reaches \<open>2**1024\<close>:
  the largest float is \<open>2**1024 - 2**971\<close>, and the integers from
  \<open>2**1024 - 2**970\<close> on round up.
\<close>

definition float_overflows :: "int \<Rightarrow> bool" where
  "float_overflows i \<longleftrightarrow> 2 ^ 1024 - 2 ^ 970 \<le> \<bar>i\<bar>"

text \<open>\<open>1e6 / exposure_us\<close>, a float divided by an integer: the integer is converted to a
  float, which may overflow, and the division raises on a zero divisor.\<close>

definition py_truediv :: "rat \<Rightarrow> int \<Rightarrow> error + rat" where
  "py_truediv a i =
     (if float_overflows i then Inl OverflowError
      else if i = 0 then Inl ZeroDivisionError
      else Inr (a / rat_of_int i))"

text \<open>Lines 81--85 of \<open>capture\<close>: frame rate, exposure (in milliseconds), gain, boost.
  The conversion of \<open>exposure_us\<close> in \<open>exposure_us*1e-3\<close> cannot overflow: line 81 has
  converted the same integer before.\<close>

definition capture_settings :: "('s, 'm) driver \<Rightarrow> int \<Rightarrow> int \<Rightarrow> bool \<Rightarrow> (unit, 's) prog" where
  "capture_settings d exposure_us gain gain_boost =
     bnd (lift (py_truediv 1000000 exposure_us)) (\<lambda>rate.
     bnd (call (SetFramerate (min 100 rate)) (drv_set_framerate d (min 100 rate))) (\<lambda>_.
     bnd (call (SetExposure (rat_of_int exposure_us * (1 / 1000)))
            (drv_set_exposure d (rat_of_int exposure_us * (1 / 1000)))) (\<lambda>_.
     bnd (call (SetGain gain) (drv_set_gain d gain)) (\<lambda>_.
     call (SetGainBoost gain_boost) (drv_set_gain_boost d gain_boost)))))"

text \<open>\<open>self._cam.next()\<close>\<close>

definition next_frame :: "('s, 'm) driver \<Rightarrow> (frame \<times> 'm, 's) prog" where
  "next_frame d = query Next fst (drv_next d)"

text \<open>Lines 95--97: \<open>for i in range(average): img_array, meta_data = self._cam.next();
  imgs.append(img_array)\<close>, with \<open>n\<close> iterations left.\<close>

primrec pull_frames :: "('s, 'm) driver \<Rightarrow> nat \<Rightarrow> frame list \<Rightarrow> (frame list, 's) prog" where
  "pull_frames d 0 imgs = ret imgs"
| "pull_frames d (Suc n) imgs =
     bnd (next_frame d) (\<lambda>(img_array, meta_data). pull_frames d n (imgs @ [img_array]))"

text \<open>Lines 92--97: the body of the \<open>try\<close>. \<open>range(average)\<close> is empty for
  \<open>average \<le> 0\<close>.\<close>

definition capture_acquire :: "('s, 'm) driver \<Rightarrow> int \<Rightarrow> (frame list, 's) prog" where
  "capture_acquire d average = bnd (next_frame d) (\<lambda>_. pull_frames d (nat average) [])"

text \<open>Lines 102--107: reduce the batch and read the device's exposure and gain back.\<close>

definition capture_result :: "('s, 'm) driver \<Rightarrow> int \<Rightarrow> frame list \<Rightarrow> (image \<times> rat \<times> int, 's) prog" where
  "capture_result d average imgs =
     bnd (lift (if average > 0 then np_mean_axis0 imgs else np_squeeze_astype_float imgs)) (\<lambda>img.
     bnd (query GetExposure id (drv_get_exposure d)) (\<lambda>e.
     bnd (query GetGain id (drv_get_gain d)) (\<lambda>g.
     ret (img, e * 1000, g))))"

text \<open>Lines 63--90: everything before the \<open>try\<close>, the last step being
  \<open>self._cam.continuous_capture = True\<close>.\<close>

definition capture_setup :: "('s, 'm) driver \<Rightarrow> int \<Rightarrow> int \<Rightarrow> bool \<Rightarrow> (unit, 's) prog" where
  "capture_setup d exposure_us gain gain_boost =
     bnd (capture_pixelclock d exposure_us) (\<lambda>_.
     bnd (capture_settings d exposure_us gain gain_boost) (\<lambda>_.
     call (SetContinuousCapture True) (drv_set_continuous_capture d True)))"

definition capture :: "('s, 'm) driver \<Rightarrow> int \<Rightarrow> int \<Rightarrow> bool \<Rightarrow> int \<Rightarrow> (image \<times> rat \<times> int, 's) prog" where
  "capture d exposure_us gain gain_boost average =
     bnd (capture_setup d exposure_us gain gain_boost) (\<lambda>_.
     bnd (try_finally (capture_acquire d average)
            (call (SetContinuousCapture False) (drv_set_continuous_capture d False))) (\<lambda>imgs.
     capture_result d average imgs))"

text \<open>\<open>camera.__init__\<close>: open the driver with one frame buffer and switch every automatic
  mode off.\<close>

definition camera_init :: "('s, 'm) driver \<Rightarrow> (unit, 's) prog" where
  "camera_init d =
     bnd (call (CameraOpen 1) (drv_open d 1)) (\<lambda>_.
     bnd (call (SetAutoWhiteBalance False) (drv_set_auto_white_balance d False)) (\<lambda>_.
     bnd (call (SetContinuousCapture False) (drv_set_continuous_capture d False)) (\<lambda>_.
     bnd (call (SetAutoExposure False) (drv_set_auto_exposure d False)) (\<lambda>_.
     bnd (call (SetExposure 100) (drv_set_exposure d 100)) (\<lambda>_.
     bnd (call (SetColorMode COLOR_BAYER_8) (drv_set_color_mode d COLOR_BAYER_8)) (\<lambda>_.
     bnd (call (SetGainBoost False) (drv_set_gain_boost d False)) (\<lambda>_.
     call (SetGain 0) (drv_set_gain d 0))))))))"

subsection \<open>Dict objects\<close>

text \<open>\<open>d.copy()\<close>: a new dict object with the entries of \<open>d\<close>.\<close>

definition dict_copy :: "nat \<Rightarrow> (nat, 's) prog" where
  "dict_copy r w =
     (if r < length (heap w) then (Inr (length (heap w)), w\<lparr>heap := heap w @ [heap w ! r]\<rparr>)
      else (Inl DanglingReference, w))"

text \<open>\<open>d[k]\<close>\<close>

definition dict_getitem :: "nat \<Rightarrow> string \<Rightarrow> (pyval, 's) prog" where
  "dict_getitem r k w =
     (if r < length (heap w) then
        (case map_of (heap w ! r) k of None \<Rightarrow> (Inl KeyError, w) | Some v \<Rightarrow> (Inr v, w))
      else (Inl DanglingReference, w))"

text \<open>Any mutation of the dict object \<open>r\<close> by its holder (\<open>d[k] = v\<close>, \<open>del d[k]\<close>,
  \<open>d.clear()\<close>, ...): the object's entries become \<open>f\<close> of what they were.\<close>

definition dict_mutate :: "nat \<Rightarrow> (pydict \<Rightarrow> pydict) \<Rightarrow> 's world \<Rightarrow> 's world" where
  "dict_mutate r f w = w\<lparr>heap := (heap w)[r := f (heap w ! r)]\<rparr>"

text \<open>The property \<open>camera.info\<close>: \<open>return self._cam.info.copy()\<close>. The driver hands out
  a reference to its info record.\<close>

definition info :: "('s, 'm) driver \<Rightarrow> (nat, 's) prog" where
  "info d = bnd (query GetInfo id (drv_get_info d)) dict_copy"

section \<open>main\<close>

definition EXPOSURE_VALUES :: "int list" where
  "EXPOSURE_VALUES = [100, 500, 1000, 5000, 10000, 50000, 100000, 500000, 1000000, 5000000, 8000000]"

text \<open>\<open>range(0, 101, 20)\<close>\<close>

definition GAIN_VALUES :: "int list" where
  "GAIN_VALUES = [0, 20, 40, 60, 80, 100]"

text \<open>\<open>if not os.path.isdir(base_path): os.makedirs(base_path)\<close>. Making a
  directory and storing a file are taken to succeed: errors of the file system are not
  modelled.\<close>

definition ensure_dir :: "string \<Rightarrow> (unit, 's) prog" where
  "ensure_dir p w =
     (if p \<in> set (dirs w) then (Inr (), w)
      else (Inr (), w\<lparr>dirs := p # dirs w, trace := trace w @ [Makedirs p]\<rparr>))"

text \<open>\<open>with open(path, 'w') as f: json.dump(cam_info, f)\<close>\<close>

definition json_dump :: "string \<Rightarrow> nat \<Rightarrow> (unit, 's) prog" where
  "json_dump p r w =
     (if r < length (heap w) then emit (JsonDump p (heap w ! r)) w else (Inl DanglingReference, w))"

text \<open>\<open>dict(array=data[0], exposure=data[1], gain=data[2])\<close>\<close>

definition mat_fields :: "image \<times> rat \<times> int \<Rightarrow> (string \<times> mat_value) list" where
  "mat_fields dt =
     [(''array'', MatArray (fst dt)), (''exposure'', MatFloat (fst (snd dt))), (''gain'', MatInt (snd (snd dt)))]"

text \<open>Lines 125--135: the body of the innermost loop. \<open>main\<close> relies on the default
  \<open>average=10\<close> of \<open>capture\<close>; the count is a parameter here.\<close>

definition sweep_point ::
    "('s, 'm) driver \<Rightarrow> string \<Rightarrow> int \<Rightarrow> bool \<Rightarrow> int \<Rightarrow> int \<Rightarrow> (image \<times> rat \<times> int, 's) prog" where
  "sweep_point d base_path average gain_boost gain exposure =
     bnd (emit (Print (base_name exposure gain gain_boost))) (\<lambda>_.
     bnd (capture d exposure gain gain_boost average) (\<lambda>dt.
     bnd (emit (SaveMat (path_join base_path (base_name exposure gain gain_boost @ ''.mat''))
                  (mat_fields dt))) (\<lambda>_.
     ret dt)))"

text \<open>A \<open>for\<close> loop over a list; \<open>acc\<close> is what the body leaves behind for the next
  iteration.\<close>

primrec for_each :: "'x list \<Rightarrow> ('x \<Rightarrow> 'acc \<Rightarrow> ('acc, 's) prog) \<Rightarrow> 'acc \<Rightarrow> ('acc, 's) prog" where
  "for_each [] body acc = ret acc"
| "for_each (x # xs) body acc = bnd (body x acc) (for_each xs body)"

text \<open>Lines 122--135: the three nested loops. The loop state is the variable \<open>data\<close>,
  unbound (\<open>None\<close>) until the first sweep point has been captured.\<close>

definition sweep ::
    "('s, 'm) driver \<Rightarrow> string \<Rightarrow> int list \<Rightarrow> int list \<Rightarrow> bool list \<Rightarrow> int
      \<Rightarrow> ((image \<times> rat \<times> int) option, 's) prog" where
  "sweep d base_path exposures gains boosts average =
     for_each boosts (\<lambda>gain_boost.
       for_each gains (\<lambda>gain.
         for_each exposures (\<lambda>exposure _.
           bnd (sweep_point d base_path average gain_boost gain exposure) (\<lambda>dt. ret (Some dt)))))
       None"

text \<open>\<open>main\<close>, with the module constants, the tuple of boost flags and the averaging
  count as parameters.\<close>

definition main_sweep :: "('s, 'm) driver \<Rightarrow> int list \<Rightarrow> int list \<Rightarrow> bool list \<Rightarrow> int \<Rightarrow> (unit, 's) prog" where
  "main_sweep d exposures gains boosts average =
     bnd (camera_init d) (\<lambda>_.
     bnd (info d) (\<lambda>cam_info.
     bnd (dict_getitem cam_info ''serial_num'') (\<lambda>serial_num.
     bnd (lift (case serial_num of PyStr s \<Rightarrow> Inr (path_join ''results'' s) | PyInt _ \<Rightarrow> Inl TypeError)) (\<lambda>base_path.
     bnd (ensure_dir base_path) (\<lambda>_.
     bnd (json_dump (path_join base_path ''info.json'') cam_info) (\<lambda>_.
     bnd (sweep d base_path exposures gains boosts average) (\<lambda>data.
     case data of
       None \<Rightarrow> lift (Inl NameError)
     | Some dt \<Rightarrow> bnd (emit (Imshow (fst dt))) (\<lambda>_. emit PltShow))))))))"

definition main :: "('s, 'm) driver \<Rightarrow> (unit, 's) prog" where
  "main d = main_sweep d EXPOSURE_VALUES GAIN_VALUES [False, True] 10"

section \<open>A stand-in driver\<close>

text \<open>
  A simulated camera for running the model on concrete inputs. The sensor delivers the
  frames of \<open>sim_frames\<close> in order while it streams and times out when none is left; it
  quantises the exposure upwards to steps of 0.04 ms, clamps the gain to 0..100,
  rejects a pixel clock outside its range, and keeps the pixel clock and the frame rate
  that were written to it last.
\<close>

record sim =
  sim_frames :: "frame list"
  sim_streaming :: bool
  sim_exposure :: rat
  sim_gain :: int
  sim_pixelclock_range :: "int list"
  sim_pixelclock :: int
  sim_framerate :: rat
  sim_info :: nat

definition sim_ok :: "sim \<Rightarrow> (error + unit) \<times> sim" where
  "sim_ok s = (Inr (), s)"

definition sim_set_pixelclock :: "int \<Rightarrow> sim \<Rightarrow> (error + unit) \<times> sim" where
  "sim_set_pixelclock v s =
     (case sim_pixelclock_range s of
        [lo, hi] \<Rightarrow> if lo \<le> v \<and> v \<le> hi then (Inr (), s\<lparr>sim_pixelclock := v\<rparr>)
                    else (Inl (DriverError ''pixelclock''), s)
      | _ \<Rightarrow> (Inl (DriverError ''pixelclock''), s))"

definition sim_next :: "sim \<Rightarrow> (error + frame \<times> unit) \<times> sim" where
  "sim_next s =
     (if sim_streaming s then
        (case sim_frames s of
           [] \<Rightarrow> (Inl (DriverError ''timeout''), s)
         | f # fs \<Rightarrow> (Inr (f, ()), s\<lparr>sim_frames := fs\<rparr>))
      else (Inl (DriverError ''not streaming''), s))"

definition standin :: "(sim, unit) driver" where
  "standin =
     \<lparr>drv_open = (\<lambda>n. sim_ok),
      drv_set_auto_white_balance = (\<lambda>b. sim_ok),
      drv_set_continuous_capture = (\<lambda>b s. (Inr (), s\<lparr>sim_streaming := b\<rparr>)),
      drv_set_auto_exposure = (\<lambda>b. sim_ok),
      drv_set_exposure = (\<lambda>x s. (Inr (), s\<lparr>sim_exposure := rat_of_int \<lceil>x * 25\<rceil> / 25\<rparr>)),
      drv_get_exposure = (\<lambda>s. (Inr (sim_exposure s), s)),
      drv_set_color_mode = (\<lambda>c. sim_ok),
      drv_set_gain_boost = (\<lambda>b. sim_ok),
      drv_set_gain = (\<lambda>g s. (Inr (), s\<lparr>sim_gain := max 0 (min 100 g)\<rparr>)),
      drv_get_gain = (\<lambda>s. (Inr (sim_gain s), s)),
      drv_set_pixelclock = sim_set_pixelclock,
      drv_get_pixelclock_range = (\<lambda>s. (Inr (sim_pixelclock_range s), s)),
      drv_set_framerate = (\<lambda>r s. (Inr (), s\<lparr>sim_framerate := r\<rparr>)),
      drv_get_info = (\<lambda>s. (Inr (sim_info s), s)),
      drv_next = sim_next\<rparr>"

text \<open>A frame of two by two pixels.\<close>

definition frame4 :: "int \<Rightarrow> int \<Rightarrow> int \<Rightarrow> int \<Rightarrow> frame" where
  "frame4 a b c e = \<lparr>nd_shape = [2, 2], nd_data = [a, b, c, e]\<rparr>"

text \<open>A world to start from: the sensor holds five frames, the pixel clock ranges over
  5..30 and stands at 18, the frame rate at 15, the info record is the only dict object
  on the heap, no directory exists.\<close>

definition sim0 :: sim where
  "sim0 =
     \<lparr>sim_frames = [frame4 9 9 9 9, frame4 10 20 30 40, frame4 20 40 60 81,
                     frame4 1 2 3 4, frame4 5 6 7 8],
      sim_streaming = False, sim_exposure = 100, sim_gain = 0,
      sim_pixelclock_range = [5, 30], sim_pixelclock = 18, sim_framerate = 15, sim_info = 0\<rparr>"

definition world0 :: "sim world" where
  "world0 =
     \<lparr>dev = sim0,
      heap = [[(''serial_num'', PyStr ''4002795734''), (''model'', PyStr ''UI-1240'')]],
      dirs = [], trace = []\<rparr>"

text \<open>The same world with a sensor whose pixel clock only ranges over 5..20, so that it
  rejects \<open>IDS_MAX_PIXEL_CLOCK\<close>.\<close>

definition world_narrow :: "sim world" where
  "world_narrow = world0\<lparr>dev := sim0\<lparr>sim_pixelclock_range := [5, 20]\<rparr>\<rparr>"


text \<open>A world whose driver reports an empty pixel clock range, and one whose sensor
  delivers frames of different shapes.\<close>

definition world_no_range :: "sim world" where
  "world_no_range = world0\<lparr>dev := sim0\<lparr>sim_pixelclock_range := []\<rparr>\<rparr>"

definition world_ragged :: "sim world" where
  "world_ragged =
     world0\<lparr>dev := sim0\<lparr>sim_frames :=
       [frame4 9 9 9 9, frame4 10 20 30 40, \<lparr>nd_shape = [1, 2], nd_data = [20, 40]\<rparr>]\<rparr>\<rparr>"

section \<open>Observing a run\<close>

text \<open>The events a run added to the trace, from the world before it and the world after.\<close>

definition new_events :: "'s world \<Rightarrow> 's world \<Rightarrow> event list" where
  "new_events w w' = drop (length (trace w)) (trace w')"

text \<open>The frame pulls of a trace with what each returned, the switches of continuous
  capture, the pixel clocks and frame rates written and the pixel clock ranges reported.\<close>

definition pulls :: "event list \<Rightarrow> frame option list" where
  "pulls evs = concat (map (\<lambda>ev. case ev of Next f \<Rightarrow> [f] | _ \<Rightarrow> []) evs)"

definition stream_switches :: "event list \<Rightarrow> bool list" where
  "stream_switches evs = concat (map (\<lambda>ev. case ev of SetContinuousCapture b \<Rightarrow> [b] | _ \<Rightarrow> []) evs)"

definition pixelclock_writes :: "event list \<Rightarrow> int list" where
  "pixelclock_writes evs = concat (map (\<lambda>ev. case ev of SetPixelclock v \<Rightarrow> [v] | _ \<Rightarrow> []) evs)"

definition range_reports :: "event list \<Rightarrow> int list option list" where
  "range_reports evs = concat (map (\<lambda>ev. case ev of GetPixelclockRange r \<Rightarrow> [r] | _ \<Rightarrow> []) evs)"

definition framerate_writes :: "event list \<Rightarrow> rat list" where
  "framerate_writes evs = concat (map (\<lambda>ev. case ev of SetFramerate v \<Rightarrow> [v] | _ \<Rightarrow> []) evs)"

text \<open>The files a trace stores, in order, with what each holds.\<close>

datatype file_content = JsonFile pydict | MatFile "(string \<times> mat_value) list"

definition files_written :: "event list \<Rightarrow> (string \<times> file_content) list" where
  "files_written evs =
     concat (map (\<lambda>ev. case ev of JsonDump p d \<Rightarrow> [(p, JsonFile d)]
                              | SaveMat p entries \<Rightarrow> [(p, MatFile entries)]
                              | _ \<Rightarrow> []) evs)"

text \<open>
  The streaming discipline of one capture, read off a trace in three phases: before the
  enable no frame is pulled; after the enable come frame pulls only, up to the disable;
  after the disable no frame is pulled and continuous capture is not switched again.
\<close>

fun after_disable :: "event list \<Rightarrow> bool" where
  "after_disable [] = True"
| "after_disable (Next _ # evs) = False"
| "after_disable (SetContinuousCapture _ # evs) = False"
| "after_disable (_ # evs) = after_disable evs"

fun while_streaming :: "event list \<Rightarrow> bool" where
  "while_streaming [] = False"
| "while_streaming (Next _ # evs) = while_streaming evs"
| "while_streaming (SetContinuousCapture b # evs) = (\<not> b \<and> after_disable evs)"
| "while_streaming (_ # evs) = False"

fun stream_bracket :: "event list \<Rightarrow> bool" where
  "stream_bracket [] = False"
| "stream_bracket (Next _ # evs) = False"
| "stream_bracket (SetContinuousCapture b # evs) = (b \<and> while_streaming evs)"
| "stream_bracket (_ # evs) = stream_bracket evs"

text \<open>
  What a trace says about the driver. An event that stands for a call into the driver
  names the operation and its arguments, so a trace can be replayed on a state of the
  driver: \<open>driver_call\<close> makes the call an event names and tells whether it raised
  and which state it left (an event of the script itself, a line printed or a file
  stored, leaves the driver alone), and \<open>agrees\<close> tells whether the value logged with
  the event is the one the call returns.
\<close>

definition answer :: "(error + 'a) \<times> 's \<Rightarrow> bool \<times> 's" where
  "answer x = (isl (fst x), snd x)"

definition driver_call :: "('s, 'm) driver \<Rightarrow> event \<Rightarrow> 's \<Rightarrow> bool \<times> 's" where
  "driver_call d ev s =
     (case ev of
        CameraOpen n \<Rightarrow> answer (drv_open d n s)
      | SetAutoWhiteBalance b \<Rightarrow> answer (drv_set_auto_white_balance d b s)
      | SetContinuousCapture b \<Rightarrow> answer (drv_set_continuous_capture d b s)
      | SetAutoExposure b \<Rightarrow> answer (drv_set_auto_exposure d b s)
      | SetExposure x \<Rightarrow> answer (drv_set_exposure d x s)
      | SetColorMode c \<Rightarrow> answer (drv_set_color_mode d c s)
      | SetGainBoost b \<Rightarrow> answer (drv_set_gain_boost d b s)
      | SetGain g \<Rightarrow> answer (drv_set_gain d g s)
      | SetPixelclock v \<Rightarrow> answer (drv_set_pixelclock d v s)
      | SetFramerate v \<Rightarrow> answer (drv_set_framerate d v s)
      | GetPixelclockRange _ \<Rightarrow> answer (drv_get_pixelclock_range d s)
      | GetExposure _ \<Rightarrow> answer (drv_get_exposure d s)
      | GetGain _ \<Rightarrow> answer (drv_get_gain d s)
      | GetInfo _ \<Rightarrow> answer (drv_get_info d s)
      | Next _ \<Rightarrow> answer (drv_next d s)
      | _ \<Rightarrow> (False, s))"

definition agrees :: "('s, 'm) driver \<Rightarrow> event \<Rightarrow> 's \<Rightarrow> bool" where
  "agrees d ev s =
     (case ev of
        GetPixelclockRange x \<Rightarrow> x = outcome (fst (drv_get_pixelclock_range d s))
      | GetExposure x \<Rightarrow> x = outcome (fst (drv_get_exposure d s))
      | GetGain x \<Rightarrow> x = outcome (fst (drv_get_gain d s))
      | GetInfo x \<Rightarrow> x = outcome (fst (drv_get_info d s))
      | Next x \<Rightarrow> x = map_option fst (outcome (fst (drv_next d s)))
      | _ \<Rightarrow> True)"

text \<open>Replaying a whole trace from a state of the driver: the state it ends in, whether
  no call raised, and whether every logged value is the driver's.\<close>

primrec device_after :: "('s, 'm) driver \<Rightarrow> event list \<Rightarrow> 's \<Rightarrow> 's" where
  "device_after d [] s = s"
| "device_after d (ev # evs) s = device_after d evs (snd (driver_call d ev s))"

primrec no_call_raises :: "('s, 'm) driver \<Rightarrow> event list \<Rightarrow> 's \<Rightarrow> bool" where
  "no_call_raises d [] s = True"
| "no_call_raises d (ev # evs) s =
     (\<not> fst (driver_call d ev s) \<and> no_call_raises d evs (snd (driver_call d ev s)))"

primrec faithful :: "('s, 'm) driver \<Rightarrow> event list \<Rightarrow> 's \<Rightarrow> bool" where
  "faithful d [] s = True"
| "faithful d (ev # evs) s = (agrees d ev s \<and> faithful d evs (snd (driver_call d ev s)))"

text \<open>
  A run from \<open>w\<close> to \<open>w'\<close> is accounted for by its trace when the trace has only
  grown, the driver is in the state that the calls logged in the run, made in that order
  from the state it was in, leave it in, and every value logged is the driver's answer.
  The driver was quiet in the run when none of these calls raised.
\<close>

definition accounted :: "('s, 'm) driver \<Rightarrow> 's world \<Rightarrow> 's world \<Rightarrow> bool" where
  "accounted d w w' \<longleftrightarrow>
     trace w' = trace w @ new_events w w'
     \<and> dev w' = device_after d (new_events w w') (dev w)
     \<and> faithful d (new_events w w') (dev w)"

definition driver_quiet :: "('s, 'm) driver \<Rightarrow> 's world \<Rightarrow> 's world \<Rightarrow> bool" where
  "driver_quiet d w w' \<longleftrightarrow> no_call_raises d (new_events w w') (dev w)"

text \<open>The frames of a batch that numpy can stack: all of the shape and size of the
  first.\<close>

definition same_shape :: "frame list \<Rightarrow> bool" where
  "same_shape imgs =
     (case imgs of
        [] \<Rightarrow> True
      | x # rest \<Rightarrow> list_all (\<lambda>y. nd_shape y = nd_shape x \<and> length (nd_data y) = length (nd_data x)) rest)"

text \<open>
  The events of a call of \<open>capture\<close> with an exposure of at most 1000 \<mu>s that
  returns: the pixel clock 30, the four settings, the enable, the frames pulled (the
  warm-up frame first), the disable and the two values read back. Around them, the
  events of one sweep point of \<open>main\<close>: the name printed before, the file stored after.
  \<open>init_events\<close> are the calls of \<open>camera.__init__\<close>.
\<close>

definition capture_events :: "int \<Rightarrow> int \<Rightarrow> bool \<Rightarrow> frame \<Rightarrow> frame list \<Rightarrow> rat \<Rightarrow> int \<Rightarrow> event list" where
  "capture_events e g b warmup imgs x ga =
     [Print ''Setting pixel clock to 30.'', SetPixelclock 30,
      SetFramerate (min 100 (1000000 / rat_of_int e)), SetExposure (rat_of_int e * (1 / 1000)),
      SetGain g, SetGainBoost b, SetContinuousCapture True]
     @ map (\<lambda>f. Next (Some f)) (warmup # imgs)
     @ [SetContinuousCapture False, GetExposure (Some x), GetGain (Some ga)]"

definition sweep_point_events ::
    "string \<Rightarrow> int \<Rightarrow> int \<Rightarrow> bool \<Rightarrow> frame \<Rightarrow> frame list \<Rightarrow> rat \<Rightarrow> int \<Rightarrow> image \<Rightarrow> event list" where
  "sweep_point_events base e g b warmup imgs x ga img =
     Print (base_name e g b) # capture_events e g b warmup imgs x ga
       @ [SaveMat (path_join base (base_name e g b @ ''.mat''))
            [(''array'', MatArray img), (''exposure'', MatFloat (x * 1000)), (''gain'', MatInt ga)]]"

definition init_events :: "event list" where
  "init_events =
     [CameraOpen 1, SetAutoWhiteBalance False, SetContinuousCapture False, SetAutoExposure False,
      SetExposure 100, SetColorMode COLOR_BAYER_8, SetGainBoost False, SetGain 0]"

text \<open>The references the driver answered when asked for its info record, and what
  \<open>main\<close> needs of such a reference: that it is a dict object of the store which holds
  a string under \<open>serial_num\<close>.\<close>

definition info_answers :: "event list \<Rightarrow> nat list" where
  "info_answers evs = concat (map (\<lambda>ev. case ev of GetInfo (Some rd) \<Rightarrow> [rd] | _ \<Rightarrow> []) evs)"

definition live_serial :: "pydict list \<Rightarrow> nat \<Rightarrow> bool" where
  "live_serial h rd \<longleftrightarrow>
     rd < length h \<and> (case map_of (h ! rd) ''serial_num'' of Some (PyStr _) \<Rightarrow> True | _ \<Rightarrow> False)"

text \<open>A program is sound for a driver when every run of it is accounted for by its
  trace and raises only when a call into the driver raised.\<close>

definition sound :: "('s, 'm) driver \<Rightarrow> ('a, 's) prog \<Rightarrow> bool" where
  "sound d m \<longleftrightarrow>
     (\<forall>w r w'. m w = (r, w') \<longrightarrow> accounted d w w' \<and> (isl r \<longrightarrow> \<not> driver_quiet d w w'))"

section \<open>Running the pieces of a capture\<close>

lemma bnd_cases:
  assumes "bnd m f w = (r, w')"
  shows "(\<exists>e. m w = (Inl e, w') \<and> r = Inl e) \<or> (\<exists>a w1. m w = (Inr a, w1) \<and> f a w1 = (r, w'))"
  using assms by (auto simp: bnd_def split: prod.splits sum.splits)


lemma next_frame_run:
  assumes "next_frame d w = (r, w')"
  shows "trace w' = trace w @ [Next (map_option fst (outcome r))] \<and> heap w' = heap w \<and> dirs w' = dirs w"
  using assms by (auto simp: next_frame_def query_def split: prod.splits)

lemma pull_frames_run:
  "pull_frames d n acc w = (r, w') \<Longrightarrow>
     \<exists>fs. trace w' = trace w @ map Next fs \<and> heap w' = heap w \<and> dirs w' = dirs w
        \<and> (case r of
             Inr imgs \<Rightarrow> length fs = n \<and> imgs = acc @ map the fs \<and> None \<notin> set fs
           | Inl e \<Rightarrow> fs \<noteq> [] \<and> last fs = None \<and> None \<notin> set (butlast fs) \<and> length fs \<le> n)"
proof (induction n arbitrary: acc w)
  case 0
  then show ?case by (auto simp: ret_def intro: exI [of _ "[]"])
next
  case (Suc n)
  from Suc.prems have "bnd (next_frame d) (\<lambda>(img_array, meta_data). pull_frames d n (acc @ [img_array])) w = (r, w')"
    by simp
  from bnd_cases [OF this] show ?case
  proof (elim disjE exE conjE)
    fix e assume a: "next_frame d w = (Inl e, w')" "r = Inl e"
    from next_frame_run [OF a(1)] a(2) show ?thesis
      by (auto simp: outcome_def intro!: exI [of _ "[None]"])
  next
    fix a w1 assume a: "next_frame d w = (Inr a, w1)"
      "(case a of (img_array, meta_data) \<Rightarrow> pull_frames d n (acc @ [img_array])) w1 = (r, w')"
    obtain f m where am: "a = (f, m)" by (cases a)
    from a(2) am have "pull_frames d n (acc @ [f]) w1 = (r, w')" by simp
    from Suc.IH [OF this] obtain fs where fs: "trace w' = trace w1 @ map Next fs" "heap w' = heap w1" "dirs w' = dirs w1"
      "(case r of
             Inr imgs \<Rightarrow> length fs = n \<and> imgs = (acc @ [f]) @ map the fs \<and> None \<notin> set fs
           | Inl e \<Rightarrow> fs \<noteq> [] \<and> last fs = None \<and> None \<notin> set (butlast fs) \<and> length fs \<le> n)" by blast
    from next_frame_run [OF a(1)] am have t1: "trace w1 = trace w @ [Next (Some f)]" "heap w1 = heap w" "dirs w1 = dirs w"
      by (auto simp: outcome_def)
    show ?thesis
      apply (rule exI [of _ "Some f # fs"])
      using fs t1 by (auto split: sum.splits)
  qed
qed


lemmas proj_defs = pulls_def stream_switches_def pixelclock_writes_def range_reports_def framerate_writes_def

lemma last_is_Some: "fs \<noteq> [] \<Longrightarrow> None \<notin> set fs \<Longrightarrow> \<exists>y. last fs = Some y"
proof -
  assume a: "fs \<noteq> []" "None \<notin> set fs"
  from a(1) have "last fs \<in> set fs" by (rule last_in_set)
  with a(2) have "last fs \<noteq> None" by metis
  then show ?thesis by (cases "last fs") simp_all
qed

lemma acquire_finally_run:
  assumes "try_finally (capture_acquire d n)
             (call (SetContinuousCapture False) (drv_set_continuous_capture d False)) w = (r, w')"
  shows "\<exists>fs. trace w' = trace w @ map Next fs @ [SetContinuousCapture False]
           \<and> heap w' = heap w \<and> dirs w' = dirs w
           \<and> fs \<noteq> [] \<and> None \<notin> set (butlast fs)
           \<and> (last fs = None \<longrightarrow> (\<exists>e. r = Inl e))
           \<and> (\<forall>imgs. r = Inr imgs \<longrightarrow> None \<notin> set fs \<and> length fs = nat n + 1 \<and> imgs = map the (tl fs))"
proof -
  obtain r1 w1 where b: "capture_acquire d n w = (r1, w1)" by (cases "capture_acquire d n w")
  obtain r2 w2 where c: "call (SetContinuousCapture False) (drv_set_continuous_capture d False) w1 = (r2, w2)"
    by (cases "call (SetContinuousCapture False) (drv_set_continuous_capture d False) w1")
  from assms b c have fin: "w' = w2" "r = (case r2 of Inl e \<Rightarrow> Inl e | Inr _ \<Rightarrow> r1)"
    by (auto simp: try_finally_def split: sum.splits)
  from c have t2: "trace w2 = trace w1 @ [SetContinuousCapture False]" "heap w2 = heap w1" "dirs w2 = dirs w1"
    by (auto simp: call_def split: prod.splits)
  have "\<exists>fs. trace w1 = trace w @ map Next fs \<and> heap w1 = heap w \<and> dirs w1 = dirs w
           \<and> fs \<noteq> [] \<and> None \<notin> set (butlast fs)
           \<and> (last fs = None \<longrightarrow> (\<exists>e. r1 = Inl e))
           \<and> (\<forall>imgs. r1 = Inr imgs \<longrightarrow> None \<notin> set fs \<and> length fs = nat n + 1 \<and> imgs = map the (tl fs))"
    using bnd_cases [OF b [unfolded capture_acquire_def]]
  proof (elim disjE exE conjE)
    fix e assume a: "next_frame d w = (Inl e, w1)" "r1 = Inl e"
    from next_frame_run [OF a(1)] a(2) show ?thesis
      by (auto simp: outcome_def intro!: exI [of _ "[None]"])
  next
    fix a wa assume a: "next_frame d w = (Inr a, wa)" "pull_frames d (nat n) [] wa = (r1, w1)"
    from next_frame_run [OF a(1)]
    have ta: "trace wa = trace w @ [Next (Some (fst a))]" "heap wa = heap w" "dirs wa = dirs w"
      by (auto simp: outcome_def)
    from pull_frames_run [OF a(2)] obtain fs where
      fs: "trace w1 = trace wa @ map Next fs" "heap w1 = heap wa" "dirs w1 = dirs wa"
        "(case r1 of
             Inr imgs \<Rightarrow> length fs = nat n \<and> imgs = [] @ map the fs \<and> None \<notin> set fs
           | Inl e \<Rightarrow> fs \<noteq> [] \<and> last fs = None \<and> None \<notin> set (butlast fs) \<and> length fs \<le> nat n)"
      by blast
    show ?thesis
      apply (rule exI [of _ "Some (fst a) # fs"])
      using ta fs by (auto split: sum.splits dest: in_set_butlastD last_is_Some)
  qed
  then obtain fs where fs: "trace w1 = trace w @ map Next fs" "heap w1 = heap w" "dirs w1 = dirs w"
           "fs \<noteq> []" "None \<notin> set (butlast fs)"
           "last fs = None \<longrightarrow> (\<exists>e. r1 = Inl e)"
           "\<forall>imgs. r1 = Inr imgs \<longrightarrow> None \<notin> set fs \<and> length fs = nat n + 1 \<and> imgs = map the (tl fs)"
    by (elim exE conjE)
  show ?thesis
    apply (rule exI [of _ fs])
    using fs t2 fin by (auto split: sum.splits)
qed

lemma float_overflows_zero [simp]: "\<not> float_overflows 0"
  by (simp add: float_overflows_def)

lemma capture_pixelclock_run:
  assumes "capture_pixelclock d e w = (r, w')"
  shows "\<exists>pc. trace w' = trace w @ pc
           \<and> heap w' = heap w
           \<and> dirs w' = dirs w
           \<and> pulls pc = []
           \<and> stream_switches pc = []
           \<and> framerate_writes pc = []
           \<and> (e \<le> 1000 \<longrightarrow> pc = [Print (''Setting pixel clock to '' @ str_int IDS_MAX_PIXEL_CLOCK @ ''.''),
                                      SetPixelclock IDS_MAX_PIXEL_CLOCK])
           \<and> (1000 < e \<longrightarrow> pixelclock_writes pc =
                 (case range_reports pc of [Some (l # _), Some (lo # _)] \<Rightarrow> [lo] | _ \<Rightarrow> []))
           \<and> (r = Inr () \<longrightarrow> length (pixelclock_writes pc) = 1)
           \<and> (1000 < e \<and> pixelclock_writes pc \<noteq> [] \<longrightarrow>
                 (\<exists>l ls lo los. pc = [GetPixelclockRange (Some (l # ls)),
                   Print (''Setting pixel clock to '' @ str_int l @ ''.''),
                   GetPixelclockRange (Some (lo # los)), SetPixelclock lo]))
           \<and> files_written pc = []"
  using assms
  by (auto simp: capture_pixelclock_def pixelclock_range_0_def bnd_def call_def query_def emit_def lift_def
        outcome_def proj_defs files_written_def
        split: prod.split_asm sum.split_asm list.split_asm if_split_asm)

lemma capture_settings_run:
  assumes "capture_settings d e g b w = (r, w')"
  shows "\<exists>st. trace w' = trace w @ st
           \<and> heap w' = heap w
           \<and> dirs w' = dirs w
           \<and> pulls st = []
           \<and> stream_switches st = []
           \<and> pixelclock_writes st = []
           \<and> range_reports st = []
           \<and> (e = 0 \<longrightarrow> st = [] \<and> r = Inl ZeroDivisionError)
           \<and> (float_overflows e \<longrightarrow> st = [] \<and> r = Inl OverflowError)
           \<and> (e \<noteq> 0 \<and> \<not> float_overflows e \<longrightarrow>
                (\<exists>rest. st = SetFramerate (min 100 (1000000 / rat_of_int e)) # rest \<and> framerate_writes rest = []))
           \<and> (r = Inr () \<longrightarrow> st = [SetFramerate (min 100 (1000000 / rat_of_int e)),
                  SetExposure (rat_of_int e * (1 / 1000)), SetGain g, SetGainBoost b])
           \<and> (e \<noteq> 0 \<and> \<not> float_overflows e \<longrightarrow> framerate_writes st = [min 100 (1000000 / rat_of_int e)])"
  using assms
  by (auto simp: capture_settings_def py_truediv_def bnd_def call_def query_def emit_def lift_def
        outcome_def proj_defs split: prod.split_asm sum.split_asm list.split_asm if_split_asm)

lemma capture_result_run:
  assumes "capture_result d n imgs w = (r, w')"
  shows "\<exists>evs. trace w' = trace w @ evs \<and> heap w' = heap w \<and> dirs w' = dirs w
           \<and> pulls evs = [] \<and> stream_switches evs = [] \<and> pixelclock_writes evs = []
           \<and> range_reports evs = [] \<and> framerate_writes evs = []
           \<and> (\<forall>img ex ga. r = Inr (img, ex, ga) \<longrightarrow>
                 (if 0 < n then np_mean_axis0 imgs else np_squeeze_astype_float imgs) = Inr img
               \<and> (\<exists>e_ms. evs = [GetExposure (Some e_ms), GetGain (Some ga)] \<and> ex = e_ms * 1000
                     \<and> fst (drv_get_exposure d (dev w)) = Inr e_ms
                     \<and> drv_get_gain d (snd (drv_get_exposure d (dev w))) = (Inr ga, dev w')))"
  using assms
  by (auto simp: capture_result_def bnd_def call_def query_def lift_def ret_def
        outcome_def proj_defs split: prod.split_asm sum.split_asm if_split_asm)

lemma enable_run:
  assumes "call (SetContinuousCapture True) (drv_set_continuous_capture d True) w = (r, w')"
  shows "trace w' = trace w @ [SetContinuousCapture True] \<and> heap w' = heap w \<and> dirs w' = dirs w"
  using assms by (auto simp: call_def split: prod.split_asm)

lemma capture_setup_cases:
  assumes "capture_setup d e g b w = (r, w')"
  shows "(\<exists>err. capture_pixelclock d e w = (Inl err, w') \<and> r = Inl err)
       \<or> (\<exists>w1 err. capture_pixelclock d e w = (Inr (), w1) \<and> capture_settings d e g b w1 = (Inl err, w') \<and> r = Inl err)
       \<or> (\<exists>w1 w2. capture_pixelclock d e w = (Inr (), w1) \<and> capture_settings d e g b w1 = (Inr (), w2)
             \<and> call (SetContinuousCapture True) (drv_set_continuous_capture d True) w2 = (r, w'))"
  using assms by (auto simp: capture_setup_def bnd_def split: prod.split_asm sum.split_asm)

lemma capture_cases:
  assumes "capture d e g b n w = (r, w')"
  shows "(\<exists>err. capture_setup d e g b w = (Inl err, w') \<and> r = Inl err)
       \<or> (\<exists>w3 err. capture_setup d e g b w = (Inr (), w3)
             \<and> try_finally (capture_acquire d n)
                 (call (SetContinuousCapture False) (drv_set_continuous_capture d False)) w3 = (Inl err, w')
             \<and> r = Inl err)
       \<or> (\<exists>w3 w4 imgs. capture_setup d e g b w = (Inr (), w3)
             \<and> try_finally (capture_acquire d n)
                 (call (SetContinuousCapture False) (drv_set_continuous_capture d False)) w3 = (Inr imgs, w4)
             \<and> capture_result d n imgs w4 = (r, w'))"
  using assms by (auto simp: capture_def bnd_def split: prod.split_asm sum.split_asm)

lemma new_events_append: "trace w' = trace w @ evs \<Longrightarrow> new_events w w' = evs"
  by (simp add: new_events_def)

lemma pulls_append [simp]: "pulls (xs @ ys) = pulls xs @ pulls ys"
  by (simp add: pulls_def)
lemma stream_switches_append [simp]: "stream_switches (xs @ ys) = stream_switches xs @ stream_switches ys"
  by (simp add: stream_switches_def)
lemma pixelclock_writes_append [simp]: "pixelclock_writes (xs @ ys) = pixelclock_writes xs @ pixelclock_writes ys"
  by (simp add: pixelclock_writes_def)
lemma range_reports_append [simp]: "range_reports (xs @ ys) = range_reports xs @ range_reports ys"
  by (simp add: range_reports_def)
lemma framerate_writes_append [simp]: "framerate_writes (xs @ ys) = framerate_writes xs @ framerate_writes ys"
  by (simp add: framerate_writes_def)

lemma proj_Nil [simp]:
  "pulls [] = []" "stream_switches [] = []" "pixelclock_writes [] = []" "range_reports [] = []"
  "framerate_writes [] = []"
  by (simp_all add: proj_defs)

lemma pulls_Next [simp]: "pulls (map Next fs) = fs"
  by (induction fs) (simp_all add: pulls_def)
lemma switches_Next [simp]: "stream_switches (map Next fs) = []"
  by (induction fs) (simp_all add: stream_switches_def)
lemma pcw_Next [simp]: "pixelclock_writes (map Next fs) = []"
  by (induction fs) (simp_all add: pixelclock_writes_def)
lemma rr_Next [simp]: "range_reports (map Next fs) = []"
  by (induction fs) (simp_all add: range_reports_def)
lemma frw_Next [simp]: "framerate_writes (map Next fs) = []"
  by (induction fs) (simp_all add: framerate_writes_def)

text \<open>The whole of a capture, whatever its outcome: the events of the setup, and, when
  the setup got through, the frame pulls between the enable and the disable and the
  events of the read-back.\<close>

lemma capture_setup_run:
  assumes "capture_setup d e g b w = (r, w')"
  shows "\<exists>pc st en. trace w' = trace w @ pc @ st @ en
      \<and> heap w' = heap w
      \<and> dirs w' = dirs w
      \<and> pulls pc = []
      \<and> stream_switches pc = []
      \<and> framerate_writes pc = []
      \<and> (e \<le> 1000 \<longrightarrow> pc = [Print (''Setting pixel clock to '' @ str_int IDS_MAX_PIXEL_CLOCK @ ''.''),
                                      SetPixelclock IDS_MAX_PIXEL_CLOCK])
      \<and> (1000 < e \<longrightarrow> pixelclock_writes pc =
                 (case range_reports pc of [Some (l # _), Some (lo # _)] \<Rightarrow> [lo] | _ \<Rightarrow> []))
      \<and> (fst (capture_pixelclock d e w) = Inr () \<longrightarrow> length (pixelclock_writes pc) = 1)
      \<and> pulls st = []
      \<and> stream_switches st = []
      \<and> pixelclock_writes st = []
      \<and> range_reports st = []
      \<and> (e = 0 \<longrightarrow> st = [] \<and> en = [] \<and> (\<exists>err. r = Inl err)
             \<and> (fst (capture_pixelclock d e w) = Inr () \<longrightarrow> r = Inl ZeroDivisionError))
      \<and> framerate_writes st = (if fst (capture_pixelclock d e w) = Inr () \<and> e \<noteq> 0 \<and> \<not> float_overflows e
                               then [min 100 (1000000 / rat_of_int e)] else [])
      \<and> (en = [] \<or> en = [SetContinuousCapture True])
      \<and> (r = Inr () \<longrightarrow> en = [SetContinuousCapture True]
            \<and> st = [SetFramerate (min 100 (1000000 / rat_of_int e)),
                  SetExposure (rat_of_int e * (1 / 1000)), SetGain g, SetGainBoost b])
      \<and> (float_overflows e \<longrightarrow> st = [] \<and> en = [] \<and> (\<exists>err. r = Inl err)
             \<and> (fst (capture_pixelclock d e w) = Inr () \<longrightarrow> r = Inl OverflowError))
      \<and> (1000 < e \<and> pixelclock_writes pc \<noteq> [] \<longrightarrow>
                 (\<exists>l ls lo los. pc = [GetPixelclockRange (Some (l # ls)),
                   Print (''Setting pixel clock to '' @ str_int l @ ''.''),
                   GetPixelclockRange (Some (lo # los)), SetPixelclock lo]))
      \<and> (fst (capture_pixelclock d e w) = Inr () \<and> e \<noteq> 0 \<and> \<not> float_overflows e \<longrightarrow>
                (\<exists>rest. st = SetFramerate (min 100 (1000000 / rat_of_int e)) # rest \<and> framerate_writes rest = []))
      \<and> files_written pc = []
      \<and> trace (snd (capture_pixelclock d e w)) = trace w @ pc"
  using capture_setup_cases [OF assms]
proof (elim disjE exE conjE)
  fix err assume a: "capture_pixelclock d e w = (Inl err, w')" "r = Inl err"
  from capture_pixelclock_run [OF a(1)] obtain pc where pc:
    "trace w' = trace w @ pc
           \<and> heap w' = heap w
           \<and> dirs w' = dirs w
           \<and> pulls pc = []
           \<and> stream_switches pc = []
           \<and> framerate_writes pc = []
           \<and> (e \<le> 1000 \<longrightarrow> pc = [Print (''Setting pixel clock to '' @ str_int IDS_MAX_PIXEL_CLOCK @ ''.''),
                                      SetPixelclock IDS_MAX_PIXEL_CLOCK])
           \<and> (1000 < e \<longrightarrow> pixelclock_writes pc =
                 (case range_reports pc of [Some (l # _), Some (lo # _)] \<Rightarrow> [lo] | _ \<Rightarrow> []))
           \<and> ((Inl err :: error + unit) = Inr () \<longrightarrow> length (pixelclock_writes pc) = 1)
           \<and> (1000 < e \<and> pixelclock_writes pc \<noteq> [] \<longrightarrow>
                 (\<exists>l ls lo los. pc = [GetPixelclockRange (Some (l # ls)),
                   Print (''Setting pixel clock to '' @ str_int l @ ''.''),
                   GetPixelclockRange (Some (lo # los)), SetPixelclock lo]))
           \<and> files_written pc = []" by blast
  from a(1) have "fst (capture_pixelclock d e w) \<noteq> Inr ()" "snd (capture_pixelclock d e w) = w'" by simp_all
  with pc a(2) show ?thesis
    by (rule_tac x = pc in exI, rule_tac x = "[]" in exI, rule_tac x = "[]" in exI) auto
next
  fix w1 err assume a: "capture_pixelclock d e w = (Inr (), w1)"
    "capture_settings d e g b w1 = (Inl err, w')" "r = Inl err"
  from capture_pixelclock_run [OF a(1)] obtain pc where pc:
    "trace w1 = trace w @ pc
           \<and> heap w1 = heap w
           \<and> dirs w1 = dirs w
           \<and> pulls pc = []
           \<and> stream_switches pc = []
           \<and> framerate_writes pc = []
           \<and> (e \<le> 1000 \<longrightarrow> pc = [Print (''Setting pixel clock to '' @ str_int IDS_MAX_PIXEL_CLOCK @ ''.''),
                                      SetPixelclock IDS_MAX_PIXEL_CLOCK])
           \<and> (1000 < e \<longrightarrow> pixelclock_writes pc =
                 (case range_reports pc of [Some (l # _), Some (lo # _)] \<Rightarrow> [lo] | _ \<Rightarrow> []))
           \<and> ((Inr () :: error + unit) = Inr () \<longrightarrow> length (pixelclock_writes pc) = 1)
           \<and> (1000 < e \<and> pixelclock_writes pc \<noteq> [] \<longrightarrow>
                 (\<exists>l ls lo los. pc = [GetPixelclockRange (Some (l # ls)),
                   Print (''Setting pixel clock to '' @ str_int l @ ''.''),
                   GetPixelclockRange (Some (lo # los)), SetPixelclock lo]))
           \<and> files_written pc = []" by blast
  from capture_settings_run [OF a(2)] obtain st where st:
    "trace w' = trace w1 @ st
           \<and> heap w' = heap w1
           \<and> dirs w' = dirs w1
           \<and> pulls st = []
           \<and> stream_switches st = []
           \<and> pixelclock_writes st = []
           \<and> range_reports st = []
           \<and> (e = 0 \<longrightarrow> st = [] \<and> (Inl err :: error + unit) = Inl ZeroDivisionError)
           \<and> (float_overflows e \<longrightarrow> st = [] \<and> (Inl err :: error + unit) = Inl OverflowError)
           \<and> (e \<noteq> 0 \<and> \<not> float_overflows e \<longrightarrow>
                (\<exists>rest. st = SetFramerate (min 100 (1000000 / rat_of_int e)) # rest \<and> framerate_writes rest = []))
           \<and> ((Inl err :: error + unit) = Inr () \<longrightarrow> st = [SetFramerate (min 100 (1000000 / rat_of_int e)),
                  SetExposure (rat_of_int e * (1 / 1000)), SetGain g, SetGainBoost b])
           \<and> (e \<noteq> 0 \<and> \<not> float_overflows e \<longrightarrow> framerate_writes st = [min 100 (1000000 / rat_of_int e)])" by blast
  from a(1) have "fst (capture_pixelclock d e w) = Inr ()" "snd (capture_pixelclock d e w) = w1" by simp_all
  with a(3) pc st show ?thesis
    by (rule_tac x = pc in exI, rule_tac x = st in exI, rule_tac x = "[]" in exI) auto
next
  fix w1 w2 assume a: "capture_pixelclock d e w = (Inr (), w1)"
    "capture_settings d e g b w1 = (Inr (), w2)"
    "call (SetContinuousCapture True) (drv_set_continuous_capture d True) w2 = (r, w')"
  from capture_pixelclock_run [OF a(1)] obtain pc where pc:
    "trace w1 = trace w @ pc
           \<and> heap w1 = heap w
           \<and> dirs w1 = dirs w
           \<and> pulls pc = []
           \<and> stream_switches pc = []
           \<and> framerate_writes pc = []
           \<and> (e \<le> 1000 \<longrightarrow> pc = [Print (''Setting pixel clock to '' @ str_int IDS_MAX_PIXEL_CLOCK @ ''.''),
                                      SetPixelclock IDS_MAX_PIXEL_CLOCK])
           \<and> (1000 < e \<longrightarrow> pixelclock_writes pc =
                 (case range_reports pc of [Some (l # _), Some (lo # _)] \<Rightarrow> [lo] | _ \<Rightarrow> []))
           \<and> ((Inr () :: error + unit) = Inr () \<longrightarrow> length (pixelclock_writes pc) = 1)
           \<and> (1000 < e \<and> pixelclock_writes pc \<noteq> [] \<longrightarrow>
                 (\<exists>l ls lo los. pc = [GetPixelclockRange (Some (l # ls)),
                   Print (''Setting pixel clock to '' @ str_int l @ ''.''),
                   GetPixelclockRange (Some (lo # los)), SetPixelclock lo]))
           \<and> files_written pc = []" by blast
  from capture_settings_run [OF a(2)] obtain st where st:
    "trace w2 = trace w1 @ st
           \<and> heap w2 = heap w1
           \<and> dirs w2 = dirs w1
           \<and> pulls st = []
           \<and> stream_switches st = []
           \<and> pixelclock_writes st = []
           \<and> range_reports st = []
           \<and> (e = 0 \<longrightarrow> st = [] \<and> (Inr () :: error + unit) = Inl ZeroDivisionError)
           \<and> (float_overflows e \<longrightarrow> st = [] \<and> (Inr () :: error + unit) = Inl OverflowError)
           \<and> (e \<noteq> 0 \<and> \<not> float_overflows e \<longrightarrow>
                (\<exists>rest. st = SetFramerate (min 100 (1000000 / rat_of_int e)) # rest \<and> framerate_writes rest = []))
           \<and> ((Inr () :: error + unit) = Inr () \<longrightarrow> st = [SetFramerate (min 100 (1000000 / rat_of_int e)),
                  SetExposure (rat_of_int e * (1 / 1000)), SetGain g, SetGainBoost b])
           \<and> (e \<noteq> 0 \<and> \<not> float_overflows e \<longrightarrow> framerate_writes st = [min 100 (1000000 / rat_of_int e)])" by blast
  from a(1) have "fst (capture_pixelclock d e w) = Inr ()" "snd (capture_pixelclock d e w) = w1" by simp_all
  with pc st enable_run [OF a(3)] show ?thesis
    by (rule_tac x = pc in exI, rule_tac x = st in exI, rule_tac x = "[SetContinuousCapture True]" in exI) auto
qed

lemma capture_run:
  assumes "capture d e g b n w = (r, w')"
  shows "\<exists>pc st en fs dis rb s.
      trace w' = trace w @ pc @ st @ en @ map Next fs @ dis @ rb
      \<and> heap w' = heap w
      \<and> dirs w' = dirs w
      \<and> pulls pc = []
      \<and> stream_switches pc = []
      \<and> framerate_writes pc = []
      \<and> (e \<le> 1000 \<longrightarrow> pc = [Print (''Setting pixel clock to '' @ str_int IDS_MAX_PIXEL_CLOCK @ ''.''),
                                      SetPixelclock IDS_MAX_PIXEL_CLOCK])
      \<and> (1000 < e \<longrightarrow> pixelclock_writes pc =
                 (case range_reports pc of [Some (l # _), Some (lo # _)] \<Rightarrow> [lo] | _ \<Rightarrow> []))
      \<and> (fst (capture_pixelclock d e w) = Inr () \<longrightarrow> length (pixelclock_writes pc) = 1)
      \<and> pulls st = []
      \<and> stream_switches st = []
      \<and> pixelclock_writes st = []
      \<and> range_reports st = []
      \<and> (e = 0 \<longrightarrow> st = [] \<and> en = [] \<and> (\<exists>err. r = Inl err)
             \<and> (fst (capture_pixelclock d e w) = Inr () \<longrightarrow> r = Inl ZeroDivisionError))
      \<and> framerate_writes st = (if fst (capture_pixelclock d e w) = Inr () \<and> e \<noteq> 0 \<and> \<not> float_overflows e
                               then [min 100 (1000000 / rat_of_int e)] else [])
      \<and> (en = [] \<or> en = [SetContinuousCapture True])
      \<and> (fst (capture_setup d e g b w) \<noteq> Inr () \<longrightarrow> fs = [] \<and> dis = [] \<and> rb = [] \<and> (\<exists>err. r = Inl err))
      \<and> (fst (capture_setup d e g b w) = Inr () \<longrightarrow>
            en = [SetContinuousCapture True]
            \<and> st = [SetFramerate (min 100 (1000000 / rat_of_int e)),
                  SetExposure (rat_of_int e * (1 / 1000)), SetGain g, SetGainBoost b]
            \<and> dis = [SetContinuousCapture False]
            \<and> fs \<noteq> [] \<and> None \<notin> set (butlast fs) \<and> (last fs = None \<longrightarrow> (\<exists>err. r = Inl err)))
      \<and> pulls rb = []
      \<and> stream_switches rb = []
      \<and> pixelclock_writes rb = []
      \<and> range_reports rb = []
      \<and> framerate_writes rb = []
      \<and> (\<forall>img ex ga. r = Inr (img, ex, ga) \<longrightarrow>
            fst (capture_setup d e g b w) = Inr ()
            \<and> None \<notin> set fs \<and> length fs = nat n + 1
            \<and> (if 0 < n then np_mean_axis0 (map the (tl fs)) else np_squeeze_astype_float (map the (tl fs))) = Inr img
            \<and> (\<exists>e_ms. rb = [GetExposure (Some e_ms), GetGain (Some ga)] \<and> ex = e_ms * 1000
                     \<and> fst (drv_get_exposure d s) = Inr e_ms
                     \<and> drv_get_gain d (snd (drv_get_exposure d s)) = (Inr ga, dev w')))
      \<and> (float_overflows e \<longrightarrow> st = [] \<and> en = [] \<and> (\<exists>err. r = Inl err)
             \<and> (fst (capture_pixelclock d e w) = Inr () \<longrightarrow> r = Inl OverflowError))
      \<and> (1000 < e \<and> pixelclock_writes pc \<noteq> [] \<longrightarrow>
                 (\<exists>l ls lo los. pc = [GetPixelclockRange (Some (l # ls)),
                   Print (''Setting pixel clock to '' @ str_int l @ ''.''),
                   GetPixelclockRange (Some (lo # los)), SetPixelclock lo]))
      \<and> (fst (capture_pixelclock d e w) = Inr () \<and> e \<noteq> 0 \<and> \<not> float_overflows e \<longrightarrow>
                (\<exists>rest. st = SetFramerate (min 100 (1000000 / rat_of_int e)) # rest \<and> framerate_writes rest = []))
      \<and> files_written pc = []
      \<and> trace (snd (capture_pixelclock d e w)) = trace w @ pc"
  using capture_cases [OF assms]
proof (elim disjE exE conjE)
  fix err assume a: "capture_setup d e g b w = (Inl err, w')" "r = Inl err"
  from a(1) have f: "fst (capture_setup d e g b w) \<noteq> Inr ()" by simp
  from capture_setup_run [OF a(1)] f a(2) show ?thesis
    apply (elim exE conjE)
    subgoal for pc st en
      by (rule_tac x = pc in exI, rule_tac x = st in exI, rule_tac x = en in exI,
          rule_tac x = "[]" in exI, rule_tac x = "[]" in exI, rule_tac x = "[]" in exI,
          rule_tac x = "dev w" in exI) simp
    done
next
  fix w3 err assume a: "capture_setup d e g b w = (Inr (), w3)"
    "try_finally (capture_acquire d n)
       (call (SetContinuousCapture False) (drv_set_continuous_capture d False)) w3 = (Inl err, w')"
    "r = Inl err"
  from a(1) have f: "fst (capture_setup d e g b w) = Inr ()" by simp
  from capture_setup_run [OF a(1)] acquire_finally_run [OF a(2)] f a(3) show ?thesis
    apply (elim exE conjE)
    subgoal for pc fs st en
      by (rule_tac x = pc in exI, rule_tac x = st in exI, rule_tac x = en in exI,
          rule_tac x = fs in exI, rule_tac x = "[SetContinuousCapture False]" in exI,
          rule_tac x = "[]" in exI, rule_tac x = "dev w" in exI) simp
    done
next
  fix w3 w4 imgs assume a: "capture_setup d e g b w = (Inr (), w3)"
    "try_finally (capture_acquire d n)
       (call (SetContinuousCapture False) (drv_set_continuous_capture d False)) w3 = (Inr imgs, w4)"
    "capture_result d n imgs w4 = (r, w')"
  from a(1) have f: "fst (capture_setup d e g b w) = Inr ()" by simp
  from capture_setup_run [OF a(1)] acquire_finally_run [OF a(2)] capture_result_run [OF a(3)] f show ?thesis
    apply (elim exE conjE)
    subgoal for pc fs rb st en
      by (rule_tac x = pc in exI, rule_tac x = st in exI, rule_tac x = en in exI,
          rule_tac x = fs in exI, rule_tac x = "[SetContinuousCapture False]" in exI,
          rule_tac x = rb in exI, rule_tac x = "dev w4" in exI) auto
    done
qed

lemma proj_Cons:
  "pulls (ev # evs) = (case ev of Next f \<Rightarrow> [f] | _ \<Rightarrow> []) @ pulls evs"
  "stream_switches (ev # evs) = (case ev of SetContinuousCapture b \<Rightarrow> [b] | _ \<Rightarrow> []) @ stream_switches evs"
  "pixelclock_writes (ev # evs) = (case ev of SetPixelclock v \<Rightarrow> [v] | _ \<Rightarrow> []) @ pixelclock_writes evs"
  "range_reports (ev # evs) = (case ev of GetPixelclockRange r \<Rightarrow> [r] | _ \<Rightarrow> []) @ range_reports evs"
  "framerate_writes (ev # evs) = (case ev of SetFramerate v \<Rightarrow> [v] | _ \<Rightarrow> []) @ framerate_writes evs"
  by (simp_all add: proj_defs)

lemma after_disable_iff: "after_disable evs \<longleftrightarrow> pulls evs = [] \<and> stream_switches evs = []"
proof (induction evs)
  case Nil
  show ?case by simp
next
  case (Cons ev evs)
  then show ?case by (cases ev) (simp_all add: proj_Cons)
qed

lemma stream_bracket_skip:
  "pulls pre = [] \<Longrightarrow> stream_switches pre = [] \<Longrightarrow> stream_bracket (pre @ evs) = stream_bracket evs"
proof (induction pre)
  case Nil
  show ?case by simp
next
  case (Cons ev pre)
  then show ?case by (cases ev) (simp_all add: proj_Cons)
qed

lemma while_streaming_pulls: "while_streaming (map Next fs @ evs) = while_streaming evs"
  by (induction fs) simp_all

lemma failed_pull_is_last:
  assumes "fs \<noteq> []" and "None \<notin> set (butlast fs)" and "None \<in> set fs"
  shows "last fs = None"
proof -
  from assms(1) have "fs = butlast fs @ [last fs]" by simp
  then have "set fs = set (butlast fs) \<union> {last fs}"
    by (metis list.simps(15) set_append empty_set)
  with assms(2,3) show ?thesis by auto
qed

lemma capture_runE [consumes 1, case_names run]:
  assumes "capture d e g b n w = (r, w')"
  obtains pc st en fs dis rb s where
      "trace w' = trace w @ pc @ st @ en @ map Next fs @ dis @ rb"
      "heap w' = heap w"
      "dirs w' = dirs w"
      "pulls pc = []"
      "stream_switches pc = []"
      "framerate_writes pc = []"
      "e \<le> 1000 \<longrightarrow> pc = [Print (''Setting pixel clock to '' @ str_int IDS_MAX_PIXEL_CLOCK @ ''.''),
                                      SetPixelclock IDS_MAX_PIXEL_CLOCK]"
      "1000 < e \<longrightarrow> pixelclock_writes pc =
                 (case range_reports pc of [Some (l # _), Some (lo # _)] \<Rightarrow> [lo] | _ \<Rightarrow> [])"
      "fst (capture_pixelclock d e w) = Inr () \<longrightarrow> length (pixelclock_writes pc) = 1"
      "pulls st = []"
      "stream_switches st = []"
      "pixelclock_writes st = []"
      "range_reports st = []"
      "e = 0 \<longrightarrow> st = [] \<and> en = [] \<and> (\<exists>err. r = Inl err)
             \<and> (fst (capture_pixelclock d e w) = Inr () \<longrightarrow> r = Inl ZeroDivisionError)"
      "framerate_writes st = (if fst (capture_pixelclock d e w) = Inr () \<and> e \<noteq> 0 \<and> \<not> float_overflows e
                               then [min 100 (1000000 / rat_of_int e)] else [])"
      "en = [] \<or> en = [SetContinuousCapture True]"
      "fst (capture_setup d e g b w) \<noteq> Inr () \<longrightarrow> fs = [] \<and> dis = [] \<and> rb = [] \<and> (\<exists>err. r = Inl err)"
      "fst (capture_setup d e g b w) = Inr () \<longrightarrow>
            en = [SetContinuousCapture True]
            \<and> st = [SetFramerate (min 100 (1000000 / rat_of_int e)),
                  SetExposure (rat_of_int e * (1 / 1000)), SetGain g, SetGainBoost b]
            \<and> dis = [SetContinuousCapture False]
            \<and> fs \<noteq> [] \<and> None \<notin> set (butlast fs) \<and> (last fs = None \<longrightarrow> (\<exists>err. r = Inl err))"
      "pulls rb = []"
      "stream_switches rb = []"
      "pixelclock_writes rb = []"
      "range_reports rb = []"
      "framerate_writes rb = []"
      "\<forall>img ex ga. r = Inr (img, ex, ga) \<longrightarrow>
            fst (capture_setup d e g b w) = Inr ()
            \<and> None \<notin> set fs \<and> length fs = nat n + 1
            \<and> (if 0 < n then np_mean_axis0 (map the (tl fs)) else np_squeeze_astype_float (map the (tl fs))) = Inr img
            \<and> (\<exists>e_ms. rb = [GetExposure (Some e_ms), GetGain (Some ga)] \<and> ex = e_ms * 1000
                     \<and> fst (drv_get_exposure d s) = Inr e_ms
                     \<and> drv_get_gain d (snd (drv_get_exposure d s)) = (Inr ga, dev w'))"
      "float_overflows e \<longrightarrow> st = [] \<and> en = [] \<and> (\<exists>err. r = Inl err)
             \<and> (fst (capture_pixelclock d e w) = Inr () \<longrightarrow> r = Inl OverflowError)"
      "1000 < e \<and> pixelclock_writes pc \<noteq> [] \<longrightarrow>
                 (\<exists>l ls lo los. pc = [GetPixelclockRange (Some (l # ls)),
                   Print (''Setting pixel clock to '' @ str_int l @ ''.''),
                   GetPixelclockRange (Some (lo # los)), SetPixelclock lo])"
      "fst (capture_pixelclock d e w) = Inr () \<and> e \<noteq> 0 \<and> \<not> float_overflows e \<longrightarrow>
                (\<exists>rest. st = SetFramerate (min 100 (1000000 / rat_of_int e)) # rest \<and> framerate_writes rest = [])"
      "files_written pc = []"
      "trace (snd (capture_pixelclock d e w)) = trace w @ pc"
  using capture_run [OF assms] by (elim exE conjE) (rule that)

lemma np_mean_axis0_data:
  assumes "np_mean_axis0 imgs = Inr img"
  shows "imgs \<noteq> []
     \<and> nd_data img = map (\<lambda>k. (\<Sum>f\<leftarrow>imgs. rat_of_int (nd_data f ! k)) / rat_of_nat (length imgs))
                        [0..<length (nd_data (hd imgs))]"
  using assms by (auto simp: np_mean_axis0_def split: sum.split_asm list.split_asm)

subsection \<open>What a capture does to the driver\<close>

text \<open>Every run of \<open>capture\<close> is accounted for by its trace, and a run that raises
  does so because a call into the driver raised, or for one of four reasons of the
  script's own: an empty pixel clock range, a zero exposure, an exposure too large for a
  float, or frames that numpy cannot stack.\<close>

lemma device_after_append: "device_after d (xs @ ys) s = device_after d ys (device_after d xs s)"
  by (induction xs arbitrary: s) simp_all

lemma no_call_raises_append:
  "no_call_raises d (xs @ ys) s \<longleftrightarrow> no_call_raises d xs s \<and> no_call_raises d ys (device_after d xs s)"
  by (induction xs arbitrary: s) simp_all

lemma faithful_append:
  "faithful d (xs @ ys) s \<longleftrightarrow> faithful d xs s \<and> faithful d ys (device_after d xs s)"
  by (induction xs arbitrary: s) simp_all

lemma accounted_refl: "accounted d w w"
  by (simp add: accounted_def new_events_def)

lemma accounted_events:
  assumes "accounted d w w1" and "accounted d w1 w2"
  shows "new_events w w2 = new_events w w1 @ new_events w1 w2"
proof -
  from assms have "trace w2 = trace w @ new_events w w1 @ new_events w1 w2"
    by (simp add: accounted_def)
  then show ?thesis by (rule new_events_append)
qed

lemma accounted_trans:
  assumes "accounted d w w1" and "accounted d w1 w2"
  shows "accounted d w w2"
  using assms accounted_events [OF assms]
  by (simp add: accounted_def device_after_append faithful_append)

lemma quiet_trans:
  assumes "accounted d w w1" and "accounted d w1 w2"
  shows "driver_quiet d w w2 \<longleftrightarrow> driver_quiet d w w1 \<and> driver_quiet d w1 w2"
  using assms accounted_events [OF assms]
  by (simp add: accounted_def driver_quiet_def no_call_raises_append)

lemmas replay_defs = accounted_def driver_quiet_def new_events_def driver_call_def agrees_def answer_def

lemma capture_pixelclock_accounted:
  assumes "capture_pixelclock d e w = (r, w')"
  shows "accounted d w w'
       \<and> (\<not> isl r \<or> \<not> driver_quiet d w w' \<or> Some [] \<in> set (range_reports (new_events w w')))"
  using assms
  by (auto simp: capture_pixelclock_def pixelclock_range_0_def bnd_def call_def query_def emit_def lift_def
        outcome_def replay_defs range_reports_def
        split: prod.split_asm sum.split_asm list.split_asm if_split_asm)

lemma capture_settings_accounted:
  assumes "capture_settings d e g b w = (r, w')"
  shows "accounted d w w' \<and> (\<not> isl r \<or> \<not> driver_quiet d w w' \<or> e = 0 \<or> float_overflows e)"
  using assms
  by (auto simp: capture_settings_def py_truediv_def bnd_def call_def query_def emit_def lift_def
        outcome_def replay_defs
        split: prod.split_asm sum.split_asm list.split_asm if_split_asm)

lemma switch_accounted:
  assumes "call (SetContinuousCapture x) (drv_set_continuous_capture d x) w = (r, w')"
  shows "accounted d w w' \<and> (\<not> isl r \<or> \<not> driver_quiet d w w')"
  using assms
  by (auto simp: call_def replay_defs split: prod.split_asm sum.split_asm)

lemma next_frame_accounted:
  assumes "next_frame d w = (r, w')"
  shows "accounted d w w' \<and> (\<not> isl r \<or> \<not> driver_quiet d w w')"
  using assms
  by (auto simp: next_frame_def query_def outcome_def replay_defs split: prod.split_asm sum.split_asm)

lemma capture_result_accounted:
  assumes "capture_result d n imgs w = (r, w')"
  shows "accounted d w w'
       \<and> (\<not> isl r \<or> \<not> driver_quiet d w w'
            \<or> (\<exists>err. (if 0 < n then np_mean_axis0 imgs else np_squeeze_astype_float imgs) = Inl err))"
  using assms
  by (auto simp: capture_result_def bnd_def call_def query_def lift_def ret_def
        outcome_def replay_defs split: prod.split_asm sum.split_asm if_split_asm)

lemma pull_frames_accounted:
  "pull_frames d n imgs w = (r, w') \<Longrightarrow> accounted d w w' \<and> (\<not> isl r \<or> \<not> driver_quiet d w w')"
proof (induction n arbitrary: imgs w)
  case 0
  then show ?case by (auto simp: ret_def accounted_refl)
next
  case (Suc n)
  from Suc.prems have "bnd (next_frame d) (\<lambda>(img_array, meta_data). pull_frames d n (imgs @ [img_array])) w = (r, w')"
    by simp
  from bnd_cases [OF this] show ?case
  proof (elim disjE exE conjE)
    fix e assume a: "next_frame d w = (Inl e, w')" "r = Inl e"
    from next_frame_accounted [OF a(1)] show ?thesis by simp
  next
    fix a w1 assume a: "next_frame d w = (Inr a, w1)"
      "(case a of (img_array, meta_data) \<Rightarrow> pull_frames d n (imgs @ [img_array])) w1 = (r, w')"
    obtain f m where am: "a = (f, m)" by (cases a)
    from a(2) am have "pull_frames d n (imgs @ [f]) w1 = (r, w')" by simp
    from Suc.IH [OF this] have s2: "accounted d w1 w'" "\<not> isl r \<or> \<not> driver_quiet d w1 w'" by simp_all
    from next_frame_accounted [OF a(1)] have s1: "accounted d w w1" by simp
    from accounted_trans [OF s1 s2(1)] quiet_trans [OF s1 s2(1)] s2(2) show ?thesis by auto
  qed
qed

lemma acquire_finally_accounted:
  assumes "try_finally (capture_acquire d n)
             (call (SetContinuousCapture False) (drv_set_continuous_capture d False)) w = (r, w')"
  shows "accounted d w w' \<and> (\<not> isl r \<or> \<not> driver_quiet d w w')"
proof -
  obtain r1 w1 where b: "capture_acquire d n w = (r1, w1)" by (cases "capture_acquire d n w")
  obtain r2 where c: "call (SetContinuousCapture False) (drv_set_continuous_capture d False) w1 = (r2, w')"
    and fin: "r = (case r2 of Inl e \<Rightarrow> Inl e | Inr _ \<Rightarrow> r1)"
    using assms b by (auto simp: try_finally_def split: prod.split_asm sum.split_asm)
  have s1: "accounted d w w1 \<and> (\<not> isl r1 \<or> \<not> driver_quiet d w w1)"
    using bnd_cases [OF b [unfolded capture_acquire_def]]
  proof (elim disjE exE conjE)
    fix e assume a: "next_frame d w = (Inl e, w1)" "r1 = Inl e"
    from next_frame_accounted [OF a(1)] show ?thesis by simp
  next
    fix a wa assume a: "next_frame d w = (Inr a, wa)" "pull_frames d (nat n) [] wa = (r1, w1)"
    from next_frame_accounted [OF a(1)] have x: "accounted d w wa" by simp
    from pull_frames_accounted [OF a(2)] have y: "accounted d wa w1" "\<not> isl r1 \<or> \<not> driver_quiet d wa w1"
      by simp_all
    from accounted_trans [OF x y(1)] quiet_trans [OF x y(1)] y(2) show ?thesis by auto
  qed
  from switch_accounted [OF c] have s2: "accounted d w1 w'" "\<not> isl r2 \<or> \<not> driver_quiet d w1 w'"
    by simp_all
  from s1 have s1': "accounted d w w1" by simp
  from accounted_trans [OF s1' s2(1)] quiet_trans [OF s1' s2(1)] s1 s2(2) fin show ?thesis
    by (auto split: sum.splits)
qed

lemma capture_setup_accounted:
  assumes "capture_setup d e g b w = (r, w')"
  shows "accounted d w w'
       \<and> (\<not> isl r \<or> \<not> driver_quiet d w w' \<or> Some [] \<in> set (range_reports (new_events w w'))
            \<or> e = 0 \<or> float_overflows e)"
  using capture_setup_cases [OF assms]
proof (elim disjE exE conjE)
  fix err assume a: "capture_pixelclock d e w = (Inl err, w')" "r = Inl err"
  from capture_pixelclock_accounted [OF a(1)] show ?thesis by simp
next
  fix w1 err assume a: "capture_pixelclock d e w = (Inr (), w1)"
    "capture_settings d e g b w1 = (Inl err, w')" "r = Inl err"
  from capture_pixelclock_accounted [OF a(1)] have s1: "accounted d w w1" by simp
  from capture_settings_accounted [OF a(2)] have s2: "accounted d w1 w'"
    "\<not> driver_quiet d w1 w' \<or> e = 0 \<or> float_overflows e" by simp_all
  from accounted_trans [OF s1 s2(1)] quiet_trans [OF s1 s2(1)] s2(2) show ?thesis by auto
next
  fix w1 w2 assume a: "capture_pixelclock d e w = (Inr (), w1)"
    "capture_settings d e g b w1 = (Inr (), w2)"
    "call (SetContinuousCapture True) (drv_set_continuous_capture d True) w2 = (r, w')"
  from capture_pixelclock_accounted [OF a(1)] have s1: "accounted d w w1" by simp
  from capture_settings_accounted [OF a(2)] have s2: "accounted d w1 w2" by simp
  from switch_accounted [OF a(3)] have s3: "accounted d w2 w'" "\<not> isl r \<or> \<not> driver_quiet d w2 w'"
    by simp_all
  note s12 = accounted_trans [OF s1 s2]
  from accounted_trans [OF s12 s3(1)] quiet_trans [OF s12 s3(1)] s3(2) show ?thesis by auto
qed

lemma np_failure:
  assumes "(if 0 < n then np_mean_axis0 imgs else np_squeeze_astype_float imgs) = Inl err"
  shows "\<not> same_shape imgs \<or> (0 < n \<and> imgs = [])"
  using assms
  by (auto simp: np_mean_axis0_def np_squeeze_astype_float_def np_array_def same_shape_def
        split: if_split_asm list.split_asm sum.split_asm)

lemma capture_accounted:
  assumes "capture d e g b n w = (r, w')"
  shows "accounted d w w'
       \<and> (\<not> isl r \<or> \<not> driver_quiet d w w' \<or> Some [] \<in> set (range_reports (new_events w w'))
            \<or> e = 0 \<or> float_overflows e
            \<or> (\<not> same_shape (map the (tl (pulls (new_events w w'))))
                 \<and> length (pulls (new_events w w')) = nat n + 1))"
  using capture_cases [OF assms]
proof (elim disjE exE conjE)
  fix err assume a: "capture_setup d e g b w = (Inl err, w')" "r = Inl err"
  from capture_setup_accounted [OF a(1)] show ?thesis by auto
next
  fix w3 err assume a: "capture_setup d e g b w = (Inr (), w3)"
    "try_finally (capture_acquire d n)
       (call (SetContinuousCapture False) (drv_set_continuous_capture d False)) w3 = (Inl err, w')"
    "r = Inl err"
  from capture_setup_accounted [OF a(1)] have s1: "accounted d w w3" by simp
  from acquire_finally_accounted [OF a(2)] have s2: "accounted d w3 w'" "\<not> driver_quiet d w3 w'"
    by simp_all
  from accounted_trans [OF s1 s2(1)] quiet_trans [OF s1 s2(1)] s2(2) show ?thesis by auto
next
  fix w3 w4 imgs assume a: "capture_setup d e g b w = (Inr (), w3)"
    "try_finally (capture_acquire d n)
       (call (SetContinuousCapture False) (drv_set_continuous_capture d False)) w3 = (Inr imgs, w4)"
    "capture_result d n imgs w4 = (r, w')"
  from capture_setup_accounted [OF a(1)] have s1: "accounted d w w3" by simp
  from acquire_finally_accounted [OF a(2)] have s2: "accounted d w3 w4" by simp
  from capture_result_accounted [OF a(3)] have s3: "accounted d w4 w'"
    "\<not> isl r \<or> \<not> driver_quiet d w4 w'
       \<or> (\<exists>err. (if 0 < n then np_mean_axis0 imgs else np_squeeze_astype_float imgs) = Inl err)"
    by simp_all
  note s12 = accounted_trans [OF s1 s2]
  note acc = accounted_trans [OF s12 s3(1)]
  from capture_setup_run [OF a(1)] obtain pc st en where
    su: "trace w3 = trace w @ pc @ st @ en" "pulls pc = []" "pulls st = []"
      "en = [] \<or> en = [SetContinuousCapture True]"
    by (elim exE conjE) (rule that; assumption)
  from acquire_finally_run [OF a(2)] obtain fs where
    fs: "trace w4 = trace w3 @ map Next fs @ [SetContinuousCapture False]"
      "length fs = nat n + 1" "imgs = map the (tl fs)"
    by (elim exE conjE) (rule that; simp)
  from capture_result_run [OF a(3)] obtain rb where
    rb: "trace w' = trace w4 @ rb" "pulls rb = []"
    by (elim exE conjE) (rule that; assumption)
  from su(4) have en: "pulls en = []" by (auto simp: proj_Cons)
  have "trace w' = trace w @ (pc @ st @ en @ map Next fs @ [SetContinuousCapture False] @ rb)"
    by (simp add: rb(1) fs(1) su(1))
  then have "new_events w w' = pc @ st @ en @ map Next fs @ [SetContinuousCapture False] @ rb"
    by (rule new_events_append)
  then have p: "pulls (new_events w w') = fs"
    by (simp add: su(2,3) en rb(2) proj_Cons)
  from fs(2,3) have len: "length imgs = nat n" by simp
  have "\<not> isl r \<or> \<not> driver_quiet d w4 w'
      \<or> (\<not> same_shape (map the (tl (pulls (new_events w w'))))
           \<and> length (pulls (new_events w w')) = nat n + 1)"
  proof (cases "\<exists>err. (if 0 < n then np_mean_axis0 imgs else np_squeeze_astype_float imgs) = Inl err")
    case True
    then obtain err where "(if 0 < n then np_mean_axis0 imgs else np_squeeze_astype_float imgs) = Inl err" ..
    from np_failure [OF this] len have "\<not> same_shape imgs" by auto
    then show ?thesis by (simp add: p fs(2,3))
  next
    case False
    with s3(2) show ?thesis by blast
  qed
  with acc quiet_trans [OF s12 s3(1)] show ?thesis by auto
qed

lemma capture_pixelclock_step:
  assumes "capture_pixelclock d e w = (r, w1)"
  shows "(e \<le> 1000 \<longrightarrow>
            new_events w w1 = [Print (''Setting pixel clock to '' @ str_int IDS_MAX_PIXEL_CLOCK @ ''.''),
                               SetPixelclock IDS_MAX_PIXEL_CLOCK])
       \<and> (1000 < e \<and> fst (drv_get_pixelclock_range d (dev w)) = Inr (l # ls)
            \<and> fst (drv_get_pixelclock_range d (snd (drv_get_pixelclock_range d (dev w)))) = Inr (lo # los) \<longrightarrow>
            new_events w w1 = [GetPixelclockRange (Some (l # ls)),
                               Print (''Setting pixel clock to '' @ str_int l @ ''.''),
                               GetPixelclockRange (Some (lo # los)), SetPixelclock lo])"
  using assms
  by (auto simp: capture_pixelclock_def pixelclock_range_0_def bnd_def call_def query_def emit_def lift_def
        outcome_def new_events_def
        split: prod.split_asm sum.split_asm list.split_asm if_split_asm)

lemma capture_tail:
  assumes "capture d e g b n w = (r, w')"
  shows "\<exists>rest. new_events w w' = new_events w (snd (capture_pixelclock d e w)) @ rest
           \<and> pixelclock_writes rest = [] \<and> range_reports rest = []
           \<and> pulls (new_events w (snd (capture_pixelclock d e w))) = []
           \<and> stream_switches (new_events w (snd (capture_pixelclock d e w))) = []
           \<and> framerate_writes (new_events w (snd (capture_pixelclock d e w))) = []
           \<and> (fst (capture_pixelclock d e w) = Inr () \<and> e \<noteq> 0 \<and> \<not> float_overflows e \<longrightarrow>
                (\<exists>rest'. rest = SetFramerate (min 100 (1000000 / rat_of_int e)) # rest'
                    \<and> framerate_writes rest' = []))"
  using assms
proof (cases rule: capture_runE)
  case (run pc st en fs dis rb s)
  from run(29) have pc: "new_events w (snd (capture_pixelclock d e w)) = pc"
    by (rule new_events_append)
  from run(1) have ne: "new_events w w' = pc @ st @ en @ map Next fs @ dis @ rb"
    by (rule new_events_append)
  from run(16) have en: "pixelclock_writes en = []" "range_reports en = []" "framerate_writes en = []"
    by (auto simp: proj_Cons)
  from run(17,18) have dis: "pixelclock_writes dis = []" "range_reports dis = []" "framerate_writes dis = []"
    by (cases "fst (capture_setup d e g b w) = Inr ()"; simp add: proj_Cons)+
  show ?thesis
  proof (rule exI [of _ "st @ en @ map Next fs @ dis @ rb"], intro conjI impI)
    show "new_events w w' = new_events w (snd (capture_pixelclock d e w)) @ st @ en @ map Next fs @ dis @ rb"
      by (simp add: ne pc)
    show "pixelclock_writes (st @ en @ map Next fs @ dis @ rb) = []"
      by (simp add: run(12) en dis run(21))
    show "range_reports (st @ en @ map Next fs @ dis @ rb) = []"
      by (simp add: run(13) en dis run(22))
    show "pulls (new_events w (snd (capture_pixelclock d e w))) = []" by (simp add: pc run(4))
    show "stream_switches (new_events w (snd (capture_pixelclock d e w))) = []" by (simp add: pc run(5))
    show "framerate_writes (new_events w (snd (capture_pixelclock d e w))) = []" by (simp add: pc run(6))
    assume "fst (capture_pixelclock d e w) = Inr () \<and> e \<noteq> 0 \<and> \<not> float_overflows e"
    with run(27) obtain rest where rest: "st = SetFramerate (min 100 (1000000 / rat_of_int e)) # rest"
      "framerate_writes rest = []" by blast
    show "\<exists>rest'. st @ en @ map Next fs @ dis @ rb = SetFramerate (min 100 (1000000 / rat_of_int e)) # rest'
                    \<and> framerate_writes rest' = []"
      by (rule exI [of _ "rest @ en @ map Next fs @ dis @ rb"]) (simp add: rest en dis run(23))
  qed
qed

lemma capture_setup_zero:
  assumes "capture_setup d 0 g b w = (r, w')"
  shows "r = Inl (case fst (drv_set_pixelclock d IDS_MAX_PIXEL_CLOCK (dev w)) of
                    Inl err \<Rightarrow> err | Inr _ \<Rightarrow> ZeroDivisionError)
       \<and> dev w' = snd (drv_set_pixelclock d IDS_MAX_PIXEL_CLOCK (dev w))"
  using assms
  by (auto simp: capture_setup_def capture_pixelclock_def capture_settings_def py_truediv_def
        bnd_def call_def emit_def lift_def
        split: prod.split_asm sum.split_asm if_split_asm)

lemma capture_zero:
  assumes "capture d 0 g b n w = (r, w')"
  shows "r = Inl (case fst (drv_set_pixelclock d IDS_MAX_PIXEL_CLOCK (dev w)) of
                    Inl err \<Rightarrow> err | Inr _ \<Rightarrow> ZeroDivisionError)
       \<and> dev w' = snd (drv_set_pixelclock d IDS_MAX_PIXEL_CLOCK (dev w))"
  using capture_cases [OF assms]
proof (elim disjE exE conjE)
  fix err assume a: "capture_setup d 0 g b w = (Inl err, w')" "r = Inl err"
  from capture_setup_zero [OF a(1)] a(2) show ?thesis by simp
next
  fix w3 err assume a: "capture_setup d 0 g b w = (Inr (), w3)"
  from capture_setup_zero [OF a(1)] show ?thesis by simp
next
  fix w3 w4 imgs assume a: "capture_setup d 0 g b w = (Inr (), w3)"
  from capture_setup_zero [OF a(1)] show ?thesis by simp
qed

lemma standin_pixelclock_kept:
  "pixelclock_writes evs = [] \<Longrightarrow> sim_pixelclock (device_after standin evs s) = sim_pixelclock s"
proof (induction evs arbitrary: s)
  case Nil
  show ?case by simp
next
  case (Cons ev evs)
  then show ?case
    by (cases ev)
       (simp_all add: proj_Cons driver_call_def answer_def standin_def sim_ok_def sim_next_def
          split: list.split)
qed

lemma standin_framerate_kept:
  "framerate_writes evs = [] \<Longrightarrow> sim_framerate (device_after standin evs s) = sim_framerate s"
proof (induction evs arbitrary: s)
  case Nil
  show ?case by simp
next
  case (Cons ev evs)
  then show ?case
    by (cases ev)
       (simp_all add: proj_Cons driver_call_def answer_def standin_def sim_ok_def sim_next_def
          sim_set_pixelclock_def split: list.split)
qed

subsection \<open>Decimal formatting\<close>

lemma digit_char_cases:
  "is_digit (digit_char n)"
  "digit_value (digit_char n) = n mod 10"
proof -
  have "n mod 10 < 10" by simp
  then have "n mod 10 = 0 \<or> n mod 10 = 1 \<or> n mod 10 = 2 \<or> n mod 10 = 3 \<or> n mod 10 = 4
      \<or> n mod 10 = 5 \<or> n mod 10 = 6 \<or> n mod 10 = 7 \<or> n mod 10 = 8 \<or> n mod 10 = 9"
    by arith
  then show "is_digit (digit_char n)" and "digit_value (digit_char n) = n mod 10"
    by (auto simp: digit_char_def digit_value_def is_digit_def)
qed

lemma is_digit_digit_char: "is_digit (digit_char n)"
  by (rule digit_char_cases(1))

lemma str_nat_digits: "list_all is_digit (str_nat n)"
proof (induction n rule: str_nat.induct)
  case (1 n)
  show ?case
  proof (cases "n < 10")
    case True
    then show ?thesis by (subst str_nat.simps) (simp add: is_digit_digit_char)
  next
    case False
    with 1 show ?thesis by (subst str_nat.simps) (simp add: is_digit_digit_char)
  qed
qed

lemma decimal_value_snoc: "decimal_value (s @ [c]) = 10 * decimal_value s + digit_value c"
  by (simp add: decimal_value_def)

lemma decimal_value_str_nat: "decimal_value (str_nat n) = n"
proof (induction n rule: str_nat.induct)
  case (1 n)
  show ?case
  proof (cases "n < 10")
    case True
    then have "str_nat n = [digit_char n]" by (subst str_nat.simps) simp
    with True show ?thesis by (simp add: decimal_value_def digit_char_cases(2))
  next
    case False
    then have "str_nat n = str_nat (n div 10) @ [digit_char (n mod 10)]"
      by (subst str_nat.simps) simp
    with 1 False show ?thesis by (simp add: decimal_value_snoc digit_char_cases(2))
  qed
qed

lemma decimal_value_zeros: "decimal_value (replicate k CHR ''0'' @ s) = decimal_value s"
proof -
  have "foldl (\<lambda>a c. 10 * a + digit_value c) 0 (replicate k CHR ''0'') = 0"
    by (induction k) (simp_all add: digit_value_def)
  then show ?thesis by (simp add: decimal_value_def)
qed

lemma decimal_value_format: "0 \<le> i \<Longrightarrow> decimal_value (format_zero_padded w i) = nat i"
  by (simp add: format_zero_padded_def zfill_def decimal_value_zeros decimal_value_str_nat)

lemma format_digits:
  assumes "0 \<le> i"
  shows "list_all is_digit (format_zero_padded w i)"
proof -
  have "list_all is_digit (replicate k CHR ''0'')" for k
    by (induction k) (simp_all add: is_digit_def)
  with assms show ?thesis
    by (simp add: format_zero_padded_def zfill_def str_nat_digits)
qed

lemma format_inj:
  assumes "0 \<le> i" "0 \<le> j" "format_zero_padded w i = format_zero_padded v j"
  shows "i = j"
proof -
  from assms(3) have "decimal_value (format_zero_padded w i) = decimal_value (format_zero_padded v j)"
    by simp
  with assms(1,2) show ?thesis by (simp add: decimal_value_format)
qed

lemma split_at_separator:
  assumes "list_all is_digit xs" "list_all is_digit ys" "\<not> is_digit a"
      and "xs @ a # r1 = ys @ a # r2"
  shows "xs = ys \<and> r1 = r2"
proof -
  from assms(1,3) have "takeWhile is_digit (xs @ a # r1) = xs"
    by (simp add: takeWhile_append2 list_all_iff)
  moreover from assms(2,3) have "takeWhile is_digit (ys @ a # r2) = ys"
    by (simp add: takeWhile_append2 list_all_iff)
  ultimately have "xs = ys" using assms(4) by simp
  with assms(4) show ?thesis by simp
qed

subsection \<open>The info property\<close>

lemma info_run:
  assumes "info d w = (Inr r, w1)"
  shows "\<exists>rd. drv_get_info d (dev w) = (Inr rd, dev w1) \<and> rd < length (heap w)
            \<and> r = length (heap w) \<and> heap w1 = heap w @ [heap w ! rd]
            \<and> trace w1 = trace w @ [GetInfo (Some rd)] \<and> dirs w1 = dirs w"
  using assms
  by (auto simp: info_def bnd_def query_def dict_copy_def outcome_def
        split: prod.split_asm sum.split_asm if_split_asm)

subsection \<open>The sweep\<close>

lemma files_written_append [simp]: "files_written (xs @ ys) = files_written xs @ files_written ys"
  by (simp add: files_written_def)

lemma files_written_Nil [simp]: "files_written [] = []"
  by (simp add: files_written_def)

lemma files_written_Cons:
  "files_written (ev # evs) =
     (case ev of JsonDump p d \<Rightarrow> [(p, JsonFile d)] | SaveMat p entries \<Rightarrow> [(p, MatFile entries)] | _ \<Rightarrow> [])
       @ files_written evs"
  by (simp add: files_written_def)

lemma files_written_Next [simp]: "files_written (map Next fs) = []"
  by (induction fs) (simp_all add: files_written_Cons)










section \<open>The claims\<close>

text \<open>
  C3. In every call to \<open>capture\<close> the pixel clock written to the device is the fixed
  maximum \<open>IDS_MAX_PIXEL_CLOCK = 30\<close> when \<open>exposure_us \<le> 1000\<close>, and the first
  entry of the range the driver reports (\<open>pixelclock_range[0]\<close>, as read the second
  time) when \<open>exposure_us > 1000\<close>. Nothing is written when the driver does not report
  a range, and exactly one pixel clock is written whenever the pixel clock step
  completes. The write is a call of the driver's pixel clock setter: the run is accounted
  for by its trace; for \<open>exposure_us \<le> 1000\<close> the run begins with the print and the
  write of 30, and the driver ends in the state that \<open>drv_set_pixelclock d 30\<close>, made
  on the state the call found, and the calls after it leave; for \<open>exposure_us > 1000\<close>,
  when the driver answers both reads of its range with a non-empty list, the run begins
  with the two reads and the write of the head of the second answer, made on the state
  the two reads left.
\<close>

theorem capture_pixelclock_policy:
  assumes "capture d exposure_us gain gain_boost average w = (r, w')"
  shows "IDS_MAX_PIXEL_CLOCK = 30
     \<and> (exposure_us \<le> 1000 \<longrightarrow> pixelclock_writes (new_events w w') = [IDS_MAX_PIXEL_CLOCK])
     \<and> (1000 < exposure_us \<longrightarrow>
          pixelclock_writes (new_events w w') =
            (case range_reports (new_events w w') of [Some (l # _), Some (lo # _)] \<Rightarrow> [lo] | _ \<Rightarrow> []))
     \<and> (fst (capture_pixelclock d exposure_us w) = Inr () \<longrightarrow> length (pixelclock_writes (new_events w w')) = 1)
     \<and> accounted d w w'
     \<and> (exposure_us \<le> 1000 \<longrightarrow>
          (\<exists>rest. new_events w w' = Print ''Setting pixel clock to 30.'' # SetPixelclock IDS_MAX_PIXEL_CLOCK # rest
             \<and> pixelclock_writes rest = []
             \<and> dev w' = device_after d rest (snd (drv_set_pixelclock d IDS_MAX_PIXEL_CLOCK (dev w)))))
     \<and> (1000 < exposure_us
          \<and> fst (drv_get_pixelclock_range d (dev w)) = Inr (l # ls)
          \<and> fst (drv_get_pixelclock_range d (snd (drv_get_pixelclock_range d (dev w)))) = Inr (lo # los) \<longrightarrow>
          (\<exists>rest. new_events w w' =
                GetPixelclockRange (Some (l # ls)) # Print (''Setting pixel clock to '' @ str_int l @ ''.'')
                  # GetPixelclockRange (Some (lo # los)) # SetPixelclock lo # rest
             \<and> pixelclock_writes rest = []
             \<and> dev w' = device_after d rest
                 (snd (drv_set_pixelclock d lo
                    (snd (drv_get_pixelclock_range d (snd (drv_get_pixelclock_range d (dev w)))))))))"
proof -
  let ?w1 = "snd (capture_pixelclock d exposure_us w)"
  have step: "capture_pixelclock d exposure_us w = (fst (capture_pixelclock d exposure_us w), ?w1)"
    by simp
  from capture_tail [OF assms] obtain rest where
    ne: "new_events w w' = new_events w ?w1 @ rest"
    and rest: "pixelclock_writes rest = []" "range_reports rest = []"
    by (elim exE conjE) (rule that; assumption)
  from capture_accounted [OF assms] have acc: "accounted d w w'" by simp
  then have dv: "dev w' = device_after d (new_events w w') (dev w)" by (simp add: accounted_def)
  have s30: "str_int IDS_MAX_PIXEL_CLOCK = ''30''" by code_simp
  have old: "(exposure_us \<le> 1000 \<longrightarrow> pixelclock_writes (new_events w w') = [IDS_MAX_PIXEL_CLOCK])
     \<and> (1000 < exposure_us \<longrightarrow>
          pixelclock_writes (new_events w w') =
            (case range_reports (new_events w w') of [Some (l # _), Some (lo # _)] \<Rightarrow> [lo] | _ \<Rightarrow> []))
     \<and> (fst (capture_pixelclock d exposure_us w) = Inr () \<longrightarrow> length (pixelclock_writes (new_events w w')) = 1)"
    using assms
  proof (cases rule: capture_runE)
    case (run pc st en fs dis rb s)
    from run(29) have pc: "new_events w ?w1 = pc" by (rule new_events_append)
    have w: "pixelclock_writes (new_events w w') = pixelclock_writes pc"
      "range_reports (new_events w w') = range_reports pc"
      by (simp_all add: ne pc rest)
    from run(7,8,9) show ?thesis
      by (auto simp: w IDS_MAX_PIXEL_CLOCK_def proj_Cons)
  qed
  show ?thesis
  proof (intro conjI impI)
    show "IDS_MAX_PIXEL_CLOCK = 30" by (simp add: IDS_MAX_PIXEL_CLOCK_def)
    show "accounted d w w'" by (rule acc)
  next
    assume "exposure_us \<le> 1000"
    with old show "pixelclock_writes (new_events w w') = [IDS_MAX_PIXEL_CLOCK]" by simp
  next
    assume "1000 < exposure_us"
    with old show "pixelclock_writes (new_events w w') =
            (case range_reports (new_events w w') of [Some (l # _), Some (lo # _)] \<Rightarrow> [lo] | _ \<Rightarrow> [])"
      by simp
  next
    assume "fst (capture_pixelclock d exposure_us w) = Inr ()"
    with old show "length (pixelclock_writes (new_events w w')) = 1" by simp
  next
    assume "exposure_us \<le> 1000"
    with capture_pixelclock_step [OF step] s30
    have "new_events w ?w1 = [Print ''Setting pixel clock to 30.'', SetPixelclock IDS_MAX_PIXEL_CLOCK]"
      by simp
    with ne have e: "new_events w w' = Print ''Setting pixel clock to 30.'' # SetPixelclock IDS_MAX_PIXEL_CLOCK # rest"
      by simp
    show "\<exists>rest. new_events w w' = Print ''Setting pixel clock to 30.'' # SetPixelclock IDS_MAX_PIXEL_CLOCK # rest
             \<and> pixelclock_writes rest = []
             \<and> dev w' = device_after d rest (snd (drv_set_pixelclock d IDS_MAX_PIXEL_CLOCK (dev w)))"
      by (rule exI [of _ rest]) (simp add: e rest dv driver_call_def answer_def)
  next
    assume a: "1000 < exposure_us
          \<and> fst (drv_get_pixelclock_range d (dev w)) = Inr (l # ls)
          \<and> fst (drv_get_pixelclock_range d (snd (drv_get_pixelclock_range d (dev w)))) = Inr (lo # los)"
    from capture_pixelclock_step [OF step, of l ls lo los] a
    have "new_events w ?w1 = [GetPixelclockRange (Some (l # ls)),
                               Print (''Setting pixel clock to '' @ str_int l @ ''.''),
                               GetPixelclockRange (Some (lo # los)), SetPixelclock lo]"
      by simp
    with ne have e: "new_events w w' =
                GetPixelclockRange (Some (l # ls)) # Print (''Setting pixel clock to '' @ str_int l @ ''.'')
                  # GetPixelclockRange (Some (lo # los)) # SetPixelclock lo # rest"
      by simp
    show "\<exists>rest. new_events w w' =
                GetPixelclockRange (Some (l # ls)) # Print (''Setting pixel clock to '' @ str_int l @ ''.'')
                  # GetPixelclockRange (Some (lo # los)) # SetPixelclock lo # rest
             \<and> pixelclock_writes rest = []
             \<and> dev w' = device_after d rest
                 (snd (drv_set_pixelclock d lo
                    (snd (drv_get_pixelclock_range d (snd (drv_get_pixelclock_range d (dev w)))))))"
      by (rule exI [of _ rest]) (simp add: e rest dv driver_call_def answer_def)
  qed
qed

theorem capture_pixelclock_policy_witness:
  "pixelclock_writes (new_events world0 (snd (capture standin 5000 0 False 1 world0))) = [5]
   \<and> pixelclock_writes (new_events world0 (snd (capture standin 1000 0 False 1 world0))) = [30]
   \<and> sim_pixelclock (dev world0) = 18
   \<and> sim_pixelclock (dev (snd (capture standin 5000 0 False 1 world0))) = 5
   \<and> sim_pixelclock (dev (snd (capture standin 1000 0 False 1 world0))) = 30"
proof -
  have long: "capture standin 5000 0 False 1 world0 =
      (fst (capture standin 5000 0 False 1 world0), snd (capture standin 5000 0 False 1 world0))"
    by simp
  have short: "capture standin 1000 0 False 1 world0 =
      (fst (capture standin 1000 0 False 1 world0), snd (capture standin 1000 0 False 1 world0))"
    by simp
  note tl = capture_pixelclock_policy [OF long, where l = 5 and ls = "[30]" and lo = 5 and los = "[30]"]
  note ts = capture_pixelclock_policy [OF short]
  have reports: "range_reports (new_events world0 (snd (capture standin 5000 0 False 1 world0)))
      = [Some [5, 30], Some [5, 30]]"
    by code_simp
  have reads: "fst (drv_get_pixelclock_range standin (dev world0)) = Inr [5, 30]"
    "fst (drv_get_pixelclock_range standin (snd (drv_get_pixelclock_range standin (dev world0)))) = Inr [5, 30]"
    by code_simp+
  from tl reports
  have a: "pixelclock_writes (new_events world0 (snd (capture standin 5000 0 False 1 world0))) = [5]"
    by simp
  from ts
  have b: "pixelclock_writes (new_events world0 (snd (capture standin 1000 0 False 1 world0))) = [30]"
    by simp
  have c: "sim_pixelclock (dev world0) = 18" by code_simp
  from tl reads obtain rest where
    l: "pixelclock_writes rest = []"
      "dev (snd (capture standin 5000 0 False 1 world0)) = device_after standin rest
         (snd (drv_set_pixelclock standin 5
            (snd (drv_get_pixelclock_range standin (snd (drv_get_pixelclock_range standin (dev world0)))))))"
    by auto
  have "sim_pixelclock (snd (drv_set_pixelclock standin 5
            (snd (drv_get_pixelclock_range standin (snd (drv_get_pixelclock_range standin (dev world0))))))) = 5"
    by code_simp
  with l have d: "sim_pixelclock (dev (snd (capture standin 5000 0 False 1 world0))) = 5"
    by (simp add: standin_pixelclock_kept)
  from ts obtain rest where
    s: "pixelclock_writes rest = []"
      "dev (snd (capture standin 1000 0 False 1 world0)) = device_after standin rest
         (snd (drv_set_pixelclock standin IDS_MAX_PIXEL_CLOCK (dev world0)))"
    by auto
  have "sim_pixelclock (snd (drv_set_pixelclock standin IDS_MAX_PIXEL_CLOCK (dev world0))) = 30"
    by code_simp
  with s have e: "sim_pixelclock (dev (snd (capture standin 1000 0 False 1 world0))) = 30"
    by (simp add: standin_pixelclock_kept)
  from a b c d e show ?thesis by (intro conjI)
qed

text \<open>
  C4, as amended. In every call to \<open>capture\<close> with \<open>exposure_us > 0\<close> in which the
  pixel clock step before line 81 raised no error and \<open>exposure_us\<close> is small enough
  to be converted to a float, the frame rate written to the device is
  \<open>min(100, 1000000 / exposure_us)\<close>: it is the only frame rate written, and it is
  written right after the pixel clock step by a call of the driver's frame rate setter on
  the state that step left. When the pixel clock step raised, or when \<open>exposure_us\<close>
  is too large for a float (the call then raises \<open>OverflowError\<close>), no frame rate is
  written.
\<close>

theorem capture_framerate:
  assumes "capture d exposure_us gain gain_boost average w = (r, w')" and "0 < exposure_us"
  shows "framerate_writes (new_events w w') =
           (if fst (capture_pixelclock d exposure_us w) = Inr () \<and> \<not> float_overflows exposure_us
            then [min 100 (1000000 / rat_of_int exposure_us)] else [])
     \<and> (fst (capture_pixelclock d exposure_us w) = Inr () \<and> float_overflows exposure_us \<longrightarrow>
          r = Inl OverflowError)
     \<and> accounted d w w'
     \<and> (fst (capture_pixelclock d exposure_us w) = Inr () \<and> \<not> float_overflows exposure_us \<longrightarrow>
          (\<exists>rest. new_events w w' =
                new_events w (snd (capture_pixelclock d exposure_us w))
                  @ SetFramerate (min 100 (1000000 / rat_of_int exposure_us)) # rest
             \<and> framerate_writes (new_events w (snd (capture_pixelclock d exposure_us w))) = []
             \<and> framerate_writes rest = []
             \<and> dev w' = device_after d rest
                 (snd (drv_set_framerate d (min 100 (1000000 / rat_of_int exposure_us))
                    (dev (snd (capture_pixelclock d exposure_us w)))))))"
proof -
  let ?w1 = "snd (capture_pixelclock d exposure_us w)"
  let ?v = "min 100 (1000000 / rat_of_int exposure_us)"
  have step: "capture_pixelclock d exposure_us w = (fst (capture_pixelclock d exposure_us w), ?w1)"
    by simp
  from capture_pixelclock_accounted [OF step]
  have d1: "dev ?w1 = device_after d (new_events w ?w1) (dev w)" by (simp add: accounted_def)
  from capture_accounted [OF assms(1)] have acc: "accounted d w w'" by simp
  then have dv: "dev w' = device_after d (new_events w w') (dev w)" by (simp add: accounted_def)
  from capture_tail [OF assms(1)] obtain rest where
    ne: "new_events w w' = new_events w ?w1 @ rest"
    and pc: "framerate_writes (new_events w ?w1) = []"
    and st: "fst (capture_pixelclock d exposure_us w) = Inr () \<and> exposure_us \<noteq> 0 \<and> \<not> float_overflows exposure_us \<longrightarrow>
                (\<exists>rest'. rest = SetFramerate ?v # rest' \<and> framerate_writes rest' = [])"
    by (elim exE conjE) (rule that; assumption)
  have both: "framerate_writes (new_events w w') =
           (if fst (capture_pixelclock d exposure_us w) = Inr () \<and> \<not> float_overflows exposure_us
            then [?v] else [])
      \<and> (fst (capture_pixelclock d exposure_us w) = Inr () \<and> float_overflows exposure_us \<longrightarrow>
          r = Inl OverflowError)"
    using assms(1)
  proof (cases rule: capture_runE)
    case (run pc st en fs dis rb s)
    from run(1) have e: "new_events w w' = pc @ st @ en @ map Next fs @ dis @ rb"
      by (rule new_events_append)
    from run(16) have en: "framerate_writes en = []" by (auto simp: proj_Cons)
    from run(17,18) have dis: "framerate_writes dis = []"
      by (cases "fst (capture_setup d exposure_us gain gain_boost w) = Inr ()"; simp add: proj_Cons)
    have "framerate_writes (new_events w w') = framerate_writes st"
      by (simp add: e run(6) en dis run(23))
    with run(15,25) assms(2) show ?thesis by simp
  qed
  then have writes: "framerate_writes (new_events w w') =
           (if fst (capture_pixelclock d exposure_us w) = Inr () \<and> \<not> float_overflows exposure_us
            then [?v] else [])"
    and ovf: "fst (capture_pixelclock d exposure_us w) = Inr () \<and> float_overflows exposure_us \<longrightarrow>
          r = Inl OverflowError"
    by simp_all
  show ?thesis
  proof (intro conjI impI)
    show "framerate_writes (new_events w w') =
           (if fst (capture_pixelclock d exposure_us w) = Inr () \<and> \<not> float_overflows exposure_us
            then [?v] else [])" by (rule writes)
    show "accounted d w w'" by (rule acc)
  next
    assume "fst (capture_pixelclock d exposure_us w) = Inr () \<and> float_overflows exposure_us"
    with ovf show "r = Inl OverflowError" by simp
  next
    assume "fst (capture_pixelclock d exposure_us w) = Inr () \<and> \<not> float_overflows exposure_us"
    with st assms(2) obtain rest' where r': "rest = SetFramerate ?v # rest'" "framerate_writes rest' = []"
      by auto
    show "\<exists>rest. new_events w w' = new_events w ?w1 @ SetFramerate ?v # rest
             \<and> framerate_writes (new_events w ?w1) = []
             \<and> framerate_writes rest = []
             \<and> dev w' = device_after d rest (snd (drv_set_framerate d ?v (dev ?w1)))"
      by (rule exI [of _ rest'])
         (simp add: ne r' pc dv d1 device_after_append driver_call_def answer_def)
  qed
qed

theorem capture_framerate_witness:
  "framerate_writes (new_events world0 (snd (capture standin 100 0 False 1 world0))) = [100]
   \<and> framerate_writes (new_events world0 (snd (capture standin 16000 0 False 1 world0))) = [125 / 2]
   \<and> sim_framerate (dev world0) = 15
   \<and> sim_framerate (dev (snd (capture standin 16000 0 False 1 world0))) = 125 / 2"
proof -
  have short: "capture standin 100 0 False 1 world0 =
      (fst (capture standin 100 0 False 1 world0), snd (capture standin 100 0 False 1 world0))"
    by simp
  have long: "capture standin 16000 0 False 1 world0 =
      (fst (capture standin 16000 0 False 1 world0), snd (capture standin 16000 0 False 1 world0))"
    by simp
  have ok: "fst (capture_pixelclock standin 100 world0) = Inr ()"
    "fst (capture_pixelclock standin 16000 world0) = Inr ()"
    by code_simp+
  have small: "\<not> float_overflows 100" "\<not> float_overflows 16000"
    by (simp_all add: float_overflows_def)
  have pos: "(0 :: int) < 100" "(0 :: int) < 16000" by simp_all
  note ts = capture_framerate [OF short pos(1)]
  note tl = capture_framerate [OF long pos(2)]
  from ts ok(1) small(1)
  have a: "framerate_writes (new_events world0 (snd (capture standin 100 0 False 1 world0))) = [100]"
    by simp
  from tl ok(2) small(2)
  have b: "framerate_writes (new_events world0 (snd (capture standin 16000 0 False 1 world0))) = [125 / 2]"
    by simp
  have c: "sim_framerate (dev world0) = 15" by code_simp
  from tl ok(2) small(2) obtain rest where
    l: "framerate_writes rest = []"
      "dev (snd (capture standin 16000 0 False 1 world0)) = device_after standin rest
         (snd (drv_set_framerate standin (min 100 (1000000 / rat_of_int 16000))
            (dev (snd (capture_pixelclock standin 16000 world0)))))"
    by auto
  have "sim_framerate (snd (drv_set_framerate standin (min 100 (1000000 / rat_of_int 16000))
            (dev (snd (capture_pixelclock standin 16000 world0))))) = 125 / 2"
    by code_simp
  with l have d: "sim_framerate (dev (snd (capture standin 16000 0 False 1 world0))) = 125 / 2"
    by (simp add: standin_framerate_kept)
  from a b c d show ?thesis by (intro conjI)
qed

text \<open>C4 as stated fails: a call with \<open>exposure_us = 100\<close> to a driver that rejects
  the pixel clock 30, and a call with \<open>exposure_us = 2**1024\<close>, write no frame rate.\<close>

theorem capture_framerate_counterexample:
  "(0 :: int) < 100
   \<and> framerate_writes (new_events world_narrow (snd (capture standin 100 0 False 1 world_narrow))) = []
   \<and> (0 :: int) < 2 ^ 1024
   \<and> fst (capture standin (2 ^ 1024) 0 False 1 world0) = Inl OverflowError
   \<and> framerate_writes (new_events world0 (snd (capture standin (2 ^ 1024) 0 False 1 world0))) = []"
  by code_simp

text \<open>
  C10, as amended. A call to \<open>capture\<close> with \<open>exposure_us = 0\<close> always raises, and it
  does so before continuous capture is enabled: all it does is print and call the
  driver's pixel clock setter with 30, no stream is switched and no frame is pulled. The
  error is the division by zero of the frame rate computation when that call of the
  driver went through, and otherwise the error that call raised. For every
  \<open>exposure_us \<noteq> 0\<close>, once the pixel clock step has gone through, the frame rate
  computation gives \<open>min(100, 1000000 / exposure_us)\<close>, which is written to the device,
  when \<open>exposure_us\<close> can be converted to a float, and raises \<open>OverflowError\<close>, no
  frame rate being written, when it cannot.
\<close>

theorem capture_zero_exposure:
  "(capture d 0 gain gain_boost average w = (r, w') \<longrightarrow>
      (\<exists>err. r = Inl err)
      \<and> new_events w w' = [Print ''Setting pixel clock to 30.'', SetPixelclock 30]
      \<and> stream_switches (new_events w w') = [] \<and> pulls (new_events w w') = []
      \<and> (fst (capture_pixelclock d 0 w) = Inr () \<longrightarrow> r = Inl ZeroDivisionError)
      \<and> r = Inl (case fst (drv_set_pixelclock d 30 (dev w)) of
                    Inl err \<Rightarrow> err | Inr _ \<Rightarrow> ZeroDivisionError)
      \<and> dev w' = snd (drv_set_pixelclock d 30 (dev w)))
   \<and> (capture d exposure_us gain gain_boost average w = (r, w') \<and> exposure_us \<noteq> 0
        \<and> fst (capture_pixelclock d exposure_us w) = Inr () \<longrightarrow>
        (if float_overflows exposure_us
         then r = Inl OverflowError \<and> framerate_writes (new_events w w') = []
         else framerate_writes (new_events w w') = [min 100 (1000000 / rat_of_int exposure_us)]))"
proof (intro conjI impI)
  assume run: "capture d 0 gain gain_boost average w = (r, w')"
  from capture_run [OF run] obtain pc st en fs dis rb where
    t: "trace w' = trace w @ pc @ st @ en @ map Next fs @ dis @ rb"
    and pc: "pc = [Print (''Setting pixel clock to '' @ str_int IDS_MAX_PIXEL_CLOCK @ ''.''),
                                      SetPixelclock IDS_MAX_PIXEL_CLOCK]"
    and st: "st = []" "en = []" "\<exists>err. r = Inl err"
      "fst (capture_pixelclock d 0 w) = Inr () \<longrightarrow> r = Inl ZeroDivisionError"
    and su: "fst (capture_setup d 0 gain gain_boost w) \<noteq> Inr () \<longrightarrow> fs = [] \<and> dis = [] \<and> rb = []"
      "fst (capture_setup d 0 gain gain_boost w) = Inr () \<longrightarrow> en = [SetContinuousCapture True]"
    by auto
  from st(2) su have rest: "fs = []" "dis = []" "rb = []" by auto
  have s30: "str_int IDS_MAX_PIXEL_CLOCK = ''30''" by code_simp
  from t have "new_events w w' = pc @ st @ en @ map Next fs @ dis @ rb"
    by (rule new_events_append)
  with pc st rest s30 have ne: "new_events w w' = [Print ''Setting pixel clock to 30.'', SetPixelclock 30]"
    by (simp add: IDS_MAX_PIXEL_CLOCK_def)
  show "\<exists>err. r = Inl err" by (rule st(3))
  show "new_events w w' = [Print ''Setting pixel clock to 30.'', SetPixelclock 30]" by (rule ne)
  show "stream_switches (new_events w w') = []" by (simp add: ne proj_Cons)
  show "pulls (new_events w w') = []" by (simp add: ne proj_Cons)
  from capture_zero [OF run]
  show "r = Inl (case fst (drv_set_pixelclock d 30 (dev w)) of
                    Inl err \<Rightarrow> err | Inr _ \<Rightarrow> ZeroDivisionError)"
    by (simp add: IDS_MAX_PIXEL_CLOCK_def)
  from capture_zero [OF run]
  show "dev w' = snd (drv_set_pixelclock d 30 (dev w))"
    by (simp add: IDS_MAX_PIXEL_CLOCK_def)
  assume "fst (capture_pixelclock d 0 w) = Inr ()"
  with st(4) show "r = Inl ZeroDivisionError" by simp
next
  assume a: "capture d exposure_us gain gain_boost average w = (r, w') \<and> exposure_us \<noteq> 0
        \<and> fst (capture_pixelclock d exposure_us w) = Inr ()"
  then have run: "capture d exposure_us gain gain_boost average w = (r, w')" by simp
  from run show "if float_overflows exposure_us
         then r = Inl OverflowError \<and> framerate_writes (new_events w w') = []
         else framerate_writes (new_events w w') = [min 100 (1000000 / rat_of_int exposure_us)]"
  proof (cases rule: capture_runE)
    case (run pc st en fs dis rb s)
    from run(1) have e: "new_events w w' = pc @ st @ en @ map Next fs @ dis @ rb"
      by (rule new_events_append)
    from run(16) have en: "framerate_writes en = []" by (auto simp: proj_Cons)
    from run(17,18) have dis: "framerate_writes dis = []"
      by (cases "fst (capture_setup d exposure_us gain gain_boost w) = Inr ()"; simp add: proj_Cons)
    have "framerate_writes (new_events w w') = framerate_writes st"
      by (simp add: e run(6) en dis run(23))
    with run(15,25) a show ?thesis by simp
  qed
qed

theorem capture_zero_exposure_witness:
  "fst (capture standin 0 0 False 10 world0) = Inl ZeroDivisionError
   \<and> new_events world0 (snd (capture standin 0 0 False 10 world0))
       = [Print ''Setting pixel clock to 30.'', SetPixelclock 30]
   \<and> sim_pixelclock (dev (snd (capture standin 0 0 False 10 world0))) = 30
   \<and> framerate_writes (new_events world0 (snd (capture standin 20000 0 False 10 world0))) = [50]"
proof -
  have run: "capture standin 0 0 False 10 world0 =
      (fst (capture standin 0 0 False 10 world0), snd (capture standin 0 0 False 10 world0))"
    by simp
  have run2: "capture standin 20000 0 False 10 world0 =
      (fst (capture standin 20000 0 False 10 world0), snd (capture standin 20000 0 False 10 world0))"
    by simp
  have ok: "fst (capture_pixelclock standin 0 world0) = Inr ()"
    "fst (capture_pixelclock standin 20000 world0) = Inr ()"
    by code_simp+
  have nz: "(20000 :: int) \<noteq> 0" by simp
  have small: "\<not> float_overflows 20000" by (simp add: float_overflows_def)
  have pcs: "sim_pixelclock (snd (drv_set_pixelclock standin 30 (dev world0))) = 30" by code_simp
  note z = capture_zero_exposure [of standin 0 False 10 world0 "fst (capture standin 0 0 False 10 world0)"
      "snd (capture standin 0 0 False 10 world0)" 1]
  note n = capture_zero_exposure [of standin 0 False 10 world0 "fst (capture standin 20000 0 False 10 world0)"
      "snd (capture standin 20000 0 False 10 world0)" 20000]
  from z run ok(1) have a: "fst (capture standin 0 0 False 10 world0) = Inl ZeroDivisionError"
    by simp
  from z run have b: "new_events world0 (snd (capture standin 0 0 False 10 world0))
       = [Print ''Setting pixel clock to 30.'', SetPixelclock 30]"
    by simp
  from z run have "dev (snd (capture standin 0 0 False 10 world0))
       = snd (drv_set_pixelclock standin 30 (dev world0))"
    by simp
  with pcs have c: "sim_pixelclock (dev (snd (capture standin 0 0 False 10 world0))) = 30"
    by simp
  from n run2 ok(2) nz small
  have d: "framerate_writes (new_events world0 (snd (capture standin 20000 0 False 10 world0))) = [50]"
    by simp
  from a b c d show ?thesis by (intro conjI)
qed

text \<open>C10 as stated fails: a driver that rejects the pixel clock 30 makes the call with
  \<open>exposure_us = 0\<close> raise the driver's error, not a division by zero; and for
  \<open>exposure_us = 2**1024\<close> the frame rate computation raises \<open>OverflowError\<close>.\<close>

theorem capture_zero_exposure_counterexample:
  "fst (capture standin 0 0 False 10 world_narrow) = Inl (DriverError ''pixelclock'')
   \<and> fst (capture standin 0 0 False 10 world_narrow) \<noteq> Inl ZeroDivisionError
   \<and> (2 :: int) ^ 1024 \<noteq> 0
   \<and> fst (capture standin (2 ^ 1024) 0 False 10 world0) = Inl OverflowError"
  by code_simp

text \<open>
  C1, as amended. Take a call to \<open>capture\<close> with \<open>average = N > 0\<close> and an
  \<open>exposure_us\<close> other than 0 that can be converted to a float, in which no call into
  the driver raises, the driver reports no empty pixel clock range, and the frames pulled
  after the first have one shape. The call returns; the driver's \<open>next()\<close> was invoked
  exactly \<open>N + 1\<close> times in it, every time with a frame; the first frame is the
  discarded warm-up frame, and the returned image is \<open>np.mean(imgs, axis=0)\<close> of the
  \<open>N\<close> frames after it: each of its elements is the sum of that element over the
  \<open>N\<close> frames, divided by \<open>N\<close>.
\<close>

theorem capture_mean:
  assumes "capture d exposure_us gain gain_boost average w = (r, w')"
      and "0 < average" and "exposure_us \<noteq> 0" and "\<not> float_overflows exposure_us"
      and "driver_quiet d w w'"
      and "Some [] \<notin> set (range_reports (new_events w w'))"
      and "same_shape (map the (tl (pulls (new_events w w'))))"
  shows "\<exists>img ex ga warmup imgs.
           r = Inr (img, ex, ga)
         \<and> pulls (new_events w w') = map Some (warmup # imgs)
         \<and> length imgs = nat average
         \<and> length (pulls (new_events w w')) = nat average + 1
         \<and> np_mean_axis0 imgs = Inr img
         \<and> nd_data img = map (\<lambda>k. (\<Sum>f\<leftarrow>imgs. rat_of_int (nd_data f ! k)) / rat_of_int average)
                            [0..<length (nd_data (hd imgs))]
         \<and> accounted d w w'"
proof -
  from capture_accounted [OF assms(1)] assms(3-7) have acc: "accounted d w w'" and "\<not> isl r"
    by simp_all
  then obtain img ex ga where r: "r = Inr (img, ex, ga)"
    by (cases r) auto
  from assms(1) show ?thesis
  proof (cases rule: capture_runE)
    case (run pc st en fs dis rb s)
    from run(24) r have ok: "fst (capture_setup d exposure_us gain gain_boost w) = Inr ()"
      and fs: "None \<notin> set fs" "length fs = nat average + 1"
      and mean: "(if 0 < average then np_mean_axis0 (map the (tl fs))
                  else np_squeeze_astype_float (map the (tl fs))) = Inr img"
      by simp_all
    from ok run(18) have g: "en = [SetContinuousCapture True]" "dis = [SetContinuousCapture False]"
      "st = [SetFramerate (min 100 (1000000 / rat_of_int exposure_us)),
             SetExposure (rat_of_int exposure_us * (1 / 1000)), SetGain gain, SetGainBoost gain_boost]"
      by simp_all
    from ok run(24) r obtain e_ms where rb: "rb = [GetExposure (Some e_ms), GetGain (Some ga)]"
      by auto
    from run(1) have "new_events w w' = pc @ st @ en @ map Next fs @ dis @ rb"
      by (rule new_events_append)
    then have p: "pulls (new_events w w') = fs"
      by (simp add: run(4) g rb proj_Cons)
    from fs(2) obtain f0 rest where fs_eq: "fs = f0 # rest" by (cases fs) auto
    from fs(1) have somes: "map Some (map the fs) = fs"
      by (induction fs) auto
    let ?imgs = "map the rest"
    from mean assms(2) fs_eq have m: "np_mean_axis0 ?imgs = Inr img" by simp
    from fs(2) fs_eq have len: "length ?imgs = nat average" by simp
    from np_mean_axis0_data [OF m] len assms(2)
    have dat: "nd_data img = map (\<lambda>k. (\<Sum>f\<leftarrow>?imgs. rat_of_int (nd_data f ! k)) / rat_of_int average)
                              [0..<length (nd_data (hd ?imgs))]"
      by simp
    show ?thesis
      apply (rule exI [of _ img], rule exI [of _ ex], rule exI [of _ ga])
      apply (rule exI [of _ "the f0"], rule exI [of _ ?imgs])
      using p somes fs_eq m len dat fs(2) r acc by simp
  qed
qed

theorem capture_mean_witness:
  "fst (capture standin 100 0 False 2 world0)
      = Inr (\<lparr>nd_shape = [2, 2], nd_data = [15, 30, 45, 121 / 2]\<rparr>, 120, 0)
   \<and> np_mean_axis0 [frame4 10 20 30 40, frame4 20 40 60 81]
      = Inr \<lparr>nd_shape = [2, 2], nd_data = [15, 30, 45, 121 / 2]\<rparr>
   \<and> length (pulls (new_events world0 (snd (capture standin 100 0 False 2 world0)))) = 3
   \<and> pulls (new_events world0 (snd (capture standin 100 0 False 2 world0)))
       = [Some (frame4 9 9 9 9), Some (frame4 10 20 30 40), Some (frame4 20 40 60 81)]"
proof -
  let ?w' = "snd (capture standin 100 0 False 2 world0)"
  have run: "capture standin 100 0 False 2 world0 = (fst (capture standin 100 0 False 2 world0), ?w')"
    by simp
  have p: "pulls (new_events world0 ?w')
       = [Some (frame4 9 9 9 9), Some (frame4 10 20 30 40), Some (frame4 20 40 60 81)]"
    by code_simp
  have pos: "(0 :: int) < 2" and nz: "(100 :: int) \<noteq> 0" by simp_all
  have small: "\<not> float_overflows 100" by (simp add: float_overflows_def)
  have quiet: "driver_quiet standin world0 ?w'" by code_simp
  have ranges: "Some [] \<notin> set (range_reports (new_events world0 ?w'))" by code_simp
  have shapes: "same_shape (map the (tl (pulls (new_events world0 ?w'))))" by code_simp
  from capture_mean [OF run pos nz small quiet ranges shapes] obtain img ex ga warmup imgs where
    a: "fst (capture standin 100 0 False 2 world0) = Inr (img, ex, ga)"
      "pulls (new_events world0 ?w') = map Some (warmup # imgs)"
      "np_mean_axis0 imgs = Inr img"
      "length (pulls (new_events world0 ?w')) = nat 2 + 1"
    by (elim exE conjE) (rule that; assumption)
  from a(2) p have "map Some imgs = map Some [frame4 10 20 30 40, frame4 20 40 60 81]" by simp
  then have imgs: "imgs = [frame4 10 20 30 40, frame4 20 40 60 81]"
    by (rule map_injective) simp
  have m: "np_mean_axis0 [frame4 10 20 30 40, frame4 20 40 60 81]
      = Inr \<lparr>nd_shape = [2, 2], nd_data = [15, 30, 45, 121 / 2]\<rparr>"
    by code_simp
  with a(3) imgs have img: "img = \<lparr>nd_shape = [2, 2], nd_data = [15, 30, 45, 121 / 2]\<rparr>" by simp
  have vals: "snd (projr (fst (capture standin 100 0 False 2 world0))) = (120, 0)" by code_simp
  with a(1) have "ex = 120" "ga = 0" by simp_all
  with a(1) img have res: "fst (capture standin 100 0 False 2 world0)
      = Inr (\<lparr>nd_shape = [2, 2], nd_data = [15, 30, 45, 121 / 2]\<rparr>, 120, 0)"
    by simp
  from a(4) have len: "length (pulls (new_events world0 ?w')) = 3" by simp
  from res m len p show ?thesis by (intro conjI)
qed

text \<open>C1 as stated fails: with \<open>average = 2\<close> and a driver that raises no error, a
  call with \<open>exposure_us = 0\<close> raises before any frame is pulled, a call with
  \<open>exposure_us = 5000\<close> to a driver that reports an empty pixel clock range raises
  before any frame is pulled, and a call that is delivered frames of different shapes
  raises in \<open>np.mean\<close>.\<close>

theorem capture_mean_counterexample:
  "(0 :: int) < 2
   \<and> driver_quiet standin world0 (snd (capture standin 0 0 False 2 world0))
   \<and> fst (capture standin 0 0 False 2 world0) = Inl ZeroDivisionError
   \<and> pulls (new_events world0 (snd (capture standin 0 0 False 2 world0))) = []
   \<and> driver_quiet standin world_no_range (snd (capture standin 5000 0 False 2 world_no_range))
   \<and> fst (capture standin 5000 0 False 2 world_no_range) = Inl IndexError
   \<and> pulls (new_events world_no_range (snd (capture standin 5000 0 False 2 world_no_range))) = []
   \<and> driver_quiet standin world_ragged (snd (capture standin 100 0 False 2 world_ragged))
   \<and> fst (capture standin 100 0 False 2 world_ragged) = Inl ValueError"
  by code_simp

text \<open>
  C2, as amended. In every call to \<open>capture\<close> that gets as far as enabling continuous
  capture without an error (everything before the \<open>try\<close> succeeded), the enable
  precedes every frame pull, every frame pull precedes the disable, and continuous
  capture is disabled exactly once: the switches of the call are exactly
  \<open>[True, False]\<close>. This includes the calls in which a frame pull raises: the disable
  is still executed, and the call raises. In every other call no frame is pulled, nothing
  is disabled, and the call raises.
\<close>

theorem capture_stream_discipline:
  assumes "capture d exposure_us gain gain_boost average w = (r, w')"
  shows "if fst (capture_setup d exposure_us gain gain_boost w) = Inr ()
         then stream_bracket (new_events w w')
              \<and> stream_switches (new_events w w') = [True, False]
              \<and> (None \<in> set (pulls (new_events w w')) \<longrightarrow> (\<exists>err. r = Inl err))
         else pulls (new_events w w') = []
              \<and> False \<notin> set (stream_switches (new_events w w'))
              \<and> (\<exists>err. r = Inl err)"
  using assms
proof (cases rule: capture_runE)
  case (run pc st en fs dis rb s)
  note t = run(1) and pc = run(4,5) and st = run(10,11) and en = run(16) and bad = run(17)
    and good = run(18) and rb = run(19,20)
  from t have ne: "new_events w w' = pc @ st @ en @ map Next fs @ dis @ rb"
    by (rule new_events_append)
  show ?thesis
  proof (cases "fst (capture_setup d exposure_us gain gain_boost w) = Inr ()")
    case True
    with good have g: "en = [SetContinuousCapture True]" "dis = [SetContinuousCapture False]"
      "fs \<noteq> []" "None \<notin> set (butlast fs)" "last fs = None \<longrightarrow> (\<exists>err. r = Inl err)"
      by simp_all
    have "stream_bracket (new_events w w') = stream_bracket (en @ map Next fs @ dis @ rb)"
      by (simp add: ne stream_bracket_skip [OF pc] stream_bracket_skip [OF st])
    also have "\<dots> = while_streaming (map Next fs @ dis @ rb)"
      by (simp add: g)
    also have "\<dots> = after_disable rb"
      by (simp add: while_streaming_pulls g)
    finally have 1: "stream_bracket (new_events w w')"
      using rb by (simp add: after_disable_iff)
    have 2: "stream_switches (new_events w w') = [True, False]"
      by (simp add: ne pc st rb g proj_Cons)
    have 3: "pulls (new_events w w') = fs"
      by (simp add: ne pc st rb g proj_Cons)
    have 4: "None \<in> set (pulls (new_events w w')) \<longrightarrow> (\<exists>err. r = Inl err)"
      using g(3,4,5) failed_pull_is_last [of fs] by (auto simp: 3)
    from True 1 2 4 show ?thesis by simp
  next
    case False
    with bad have b: "fs = []" "dis = []" "rb = []" "\<exists>err. r = Inl err" by simp_all
    from en have "pulls en = []" "False \<notin> set (stream_switches en)"
      by (auto simp: proj_Cons)
    with False b pc st show ?thesis by (simp add: ne)
  qed
qed


theorem capture_stream_discipline_witness:
  "fst (capture_setup standin 100 0 False world0) = Inr ()
   \<and> None \<in> set (pulls (new_events world0 (snd (capture standin 100 0 False 7 world0))))
   \<and> stream_bracket (new_events world0 (snd (capture standin 100 0 False 7 world0)))
   \<and> stream_switches (new_events world0 (snd (capture standin 100 0 False 7 world0))) = [True, False]
   \<and> (\<exists>err. fst (capture standin 100 0 False 7 world0) = Inl err)"
proof -
  have run: "capture standin 100 0 False 7 world0 =
      (fst (capture standin 100 0 False 7 world0), snd (capture standin 100 0 False 7 world0))"
    by simp
  have ok: "fst (capture_setup standin 100 0 False world0) = Inr ()"
    by code_simp
  have failed: "None \<in> set (pulls (new_events world0 (snd (capture standin 100 0 False 7 world0))))"
    by code_simp
  from capture_stream_discipline [OF run] ok failed show ?thesis by simp
qed

text \<open>C2 as stated fails: a call with \<open>exposure_us = 0\<close> raises in the frame rate
  computation, before the \<open>try\<close>, and never disables continuous capture.\<close>

theorem capture_stream_discipline_counterexample:
  "stream_switches (new_events world0 (snd (capture standin 0 0 False 10 world0))) = []
   \<and> count_list (stream_switches (new_events world0 (snd (capture standin 0 0 False 10 world0)))) False \<noteq> 1"
  by code_simp

text \<open>
  C5. Whenever a call to \<open>capture\<close> returns, the exposure and the gain it returns are
  the values the driver's \<open>exposure\<close> and \<open>gain\<close> getters answered at the very end of
  the call, after the requested values were written and after streaming was disabled;
  the exposure is the driver's answer (milliseconds) times 1000. With the stand-in
  driver, which quantises a requested 100 us to 0.12 ms and clamps a requested gain of
  150 to 100, the call returns 120 and 100.
\<close>

theorem capture_returns_device_values:
  assumes "capture d exposure_us gain gain_boost average w = (Inr (img, ex, ga), w')"
  shows "\<exists>pc fs e_ms s.
           new_events w w' =
             pc @ [SetFramerate (min 100 (1000000 / rat_of_int exposure_us)),
                   SetExposure (rat_of_int exposure_us * (1 / 1000)), SetGain gain,
                   SetGainBoost gain_boost, SetContinuousCapture True]
                @ map Next fs
                @ [SetContinuousCapture False, GetExposure (Some e_ms), GetGain (Some ga)]
         \<and> ex = e_ms * 1000
         \<and> fst (drv_get_exposure d s) = Inr e_ms
         \<and> drv_get_gain d (snd (drv_get_exposure d s)) = (Inr ga, dev w')"
  using assms
proof (cases rule: capture_runE)
  case (run pc st en fs dis rb s)
  from run(24) have ok: "fst (capture_setup d exposure_us gain gain_boost w) = Inr ()"
    by simp
  from ok run(18) have g: "en = [SetContinuousCapture True]" "dis = [SetContinuousCapture False]"
    "st = [SetFramerate (min 100 (1000000 / rat_of_int exposure_us)),
           SetExposure (rat_of_int exposure_us * (1 / 1000)), SetGain gain, SetGainBoost gain_boost]"
    by simp_all
  from run(24) obtain e_ms where rb: "rb = [GetExposure (Some e_ms), GetGain (Some ga)]"
    "ex = e_ms * 1000" "fst (drv_get_exposure d s) = Inr e_ms"
    "drv_get_gain d (snd (drv_get_exposure d s)) = (Inr ga, dev w')"
    by auto
  from run(1) have "new_events w w' = pc @ st @ en @ map Next fs @ dis @ rb"
    by (rule new_events_append)
  with g rb show ?thesis
    by (intro exI [of _ pc] exI [of _ fs] exI [of _ e_ms] exI [of _ s]) simp
qed

theorem capture_returns_device_values_witness:
  "fst (capture standin 100 150 False 2 world0)
      = Inr (\<lparr>nd_shape = [2, 2], nd_data = [15, 30, 45, 121 / 2]\<rparr>, 120, 100)
   \<and> (\<exists>pc fs.
        new_events world0 (snd (capture standin 100 150 False 2 world0)) =
          pc @ [SetFramerate 100, SetExposure (1 / 10), SetGain 150, SetGainBoost False,
                SetContinuousCapture True]
             @ map Next fs
             @ [SetContinuousCapture False, GetExposure (Some (3 / 25)), GetGain (Some 100)])"
proof -
  have res: "fst (capture standin 100 150 False 2 world0)
      = Inr (\<lparr>nd_shape = [2, 2], nd_data = [15, 30, 45, 121 / 2]\<rparr>, 120, 100)"
    by code_simp
  have run: "capture standin 100 150 False 2 world0 =
      (Inr (\<lparr>nd_shape = [2, 2], nd_data = [15, 30, 45, 121 / 2]\<rparr>, 120, 100),
       snd (capture standin 100 150 False 2 world0))"
    using res by (simp add: prod_eq_iff)
  from capture_returns_device_values [OF run] obtain pc fs e_ms where
    ne: "new_events world0 (snd (capture standin 100 150 False 2 world0)) =
             pc @ [SetFramerate (min 100 (1000000 / rat_of_int 100)),
                   SetExposure (rat_of_int 100 * (1 / 1000)), SetGain 150,
                   SetGainBoost False, SetContinuousCapture True]
                @ map Next fs
                @ [SetContinuousCapture False, GetExposure (Some e_ms), GetGain (Some 100)]"
    and e: "(120 :: rat) = e_ms * 1000"
    by blast
  from e have "e_ms = 3 / 25" by simp
  with ne res show ?thesis by auto
qed

text \<open>
  C7: what the code does for \<open>average = 0\<close>. Whenever such a call returns, exactly one
  frame was pulled, the warm-up frame, so the collection that is squeezed is empty, not
  a single frame: the returned image is the empty array of shape \<open>(0,)\<close>.
\<close>

theorem capture_average_zero:
  assumes "capture d exposure_us gain gain_boost 0 w = (Inr (img, ex, ga), w')"
  shows "(\<exists>warmup. pulls (new_events w w') = [Some warmup])
       \<and> img = \<lparr>nd_shape = [0], nd_data = []\<rparr>"
  using assms
proof (cases rule: capture_runE)
  case (run pc st en fs dis rb s)
  from run(24) have ok: "fst (capture_setup d exposure_us gain gain_boost w) = Inr ()"
    and fs: "None \<notin> set fs" "length fs = 1"
    and sq: "np_squeeze_astype_float (map the (tl fs)) = Inr img"
    by simp_all
  from ok run(18) have g: "en = [SetContinuousCapture True]" "dis = [SetContinuousCapture False]"
    "st = [SetFramerate (min 100 (1000000 / rat_of_int exposure_us)),
           SetExposure (rat_of_int exposure_us * (1 / 1000)), SetGain gain, SetGainBoost gain_boost]"
    by simp_all
  from ok run(24) obtain e_ms where rb: "rb = [GetExposure (Some e_ms), GetGain (Some ga)]"
    by auto
  from run(1) have "new_events w w' = pc @ st @ en @ map Next fs @ dis @ rb"
    by (rule new_events_append)
  then have p: "pulls (new_events w w') = fs"
    by (simp add: run(4) g rb proj_Cons)
  from fs(2) obtain f0 where one: "fs = [f0]" by (cases fs) auto
  with fs(1) obtain warmup where "f0 = Some warmup" by (cases f0) auto
  with p one have 1: "\<exists>warmup. pulls (new_events w w') = [Some warmup]" by simp
  from sq one have 2: "img = \<lparr>nd_shape = [0], nd_data = []\<rparr>"
    by (simp add: np_squeeze_astype_float_def np_array_def)
  from 1 2 show ?thesis by simp
qed

theorem capture_average_zero_witness:
  "fst (capture standin 100 0 False 0 world0) = Inr (\<lparr>nd_shape = [0], nd_data = []\<rparr>, 120, 0)
   \<and> pulls (new_events world0 (snd (capture standin 100 0 False 0 world0))) = [Some (frame4 9 9 9 9)]"
proof -
  have res: "fst (capture standin 100 0 False 0 world0) = Inr (\<lparr>nd_shape = [0], nd_data = []\<rparr>, 120, 0)"
    by code_simp
  have run: "capture standin 100 0 False 0 world0 =
      (Inr (\<lparr>nd_shape = [0], nd_data = []\<rparr>, 120, 0), snd (capture standin 100 0 False 0 world0))"
    using res by (simp add: prod_eq_iff)
  have first: "hd (pulls (new_events world0 (snd (capture standin 100 0 False 0 world0)))) = Some (frame4 9 9 9 9)"
    by code_simp
  from capture_average_zero [OF run] obtain warmup where
    "pulls (new_events world0 (snd (capture standin 100 0 False 0 world0))) = [Some warmup]"
    by blast
  with first res show ?thesis by simp
qed

text \<open>
  C8. The name of an artifact, \<open>"exp_{:07}_gain_{:03}_boost_{}".format(exposure, gain,
  gain_boost) + '.mat'\<close>, determines the sweep point: two points with non-negative
  exposure and gain that get the same name are the same point.
\<close>

theorem artifact_name_injective:
  assumes "0 \<le> exposure" "0 \<le> gain" "0 \<le> exposure'" "0 \<le> gain'"
      and "base_name exposure gain gain_boost @ ''.mat'' = base_name exposure' gain' gain_boost' @ ''.mat''"
  shows "exposure = exposure' \<and> gain = gain' \<and> gain_boost = gain_boost'"
proof -
  have sep: "\<not> is_digit CHR ''_''" by (simp add: is_digit_def)
  from assms(5) have
    "format_zero_padded 7 exposure @ CHR ''_'' # (''gain_'' @ format_zero_padded 3 gain @ ''_boost_'' @ str_bool gain_boost @ ''.mat'')
     = format_zero_padded 7 exposure' @ CHR ''_'' # (''gain_'' @ format_zero_padded 3 gain' @ ''_boost_'' @ str_bool gain_boost' @ ''.mat'')"
    by (simp add: base_name_def)
  from split_at_separator [OF format_digits [OF assms(1)] format_digits [OF assms(3)] sep this]
  have e: "format_zero_padded 7 exposure = format_zero_padded 7 exposure'"
    and rest: "format_zero_padded 3 gain @ CHR ''_'' # (''boost_'' @ str_bool gain_boost @ ''.mat'')
             = format_zero_padded 3 gain' @ CHR ''_'' # (''boost_'' @ str_bool gain_boost' @ ''.mat'')"
    by simp_all
  from split_at_separator [OF format_digits [OF assms(2)] format_digits [OF assms(4)] sep rest]
  have g: "format_zero_padded 3 gain = format_zero_padded 3 gain'"
    and b: "str_bool gain_boost = str_bool gain_boost'"
    by simp_all
  from b have "gain_boost = gain_boost'"
    by (cases gain_boost; cases gain_boost') (simp_all add: str_bool_def)
  with format_inj [OF assms(1,3) e] format_inj [OF assms(2,4) g] show ?thesis by simp
qed

theorem artifact_name_injective_witness:
  "base_name 100 0 False @ ''.mat'' \<noteq> base_name 1000 0 False @ ''.mat''
   \<and> base_name 100 0 False @ ''.mat'' \<noteq> base_name 100 20 False @ ''.mat''
   \<and> base_name 100 0 False @ ''.mat'' \<noteq> base_name 100 0 True @ ''.mat''"
proof -
  have z: "(0 :: int) \<le> 100" "(0 :: int) \<le> 0" "(0 :: int) \<le> 1000" "(0 :: int) \<le> 20"
    by simp_all
  have a: "base_name 100 0 False @ ''.mat'' \<noteq> base_name 1000 0 False @ ''.mat''"
  proof
    assume "base_name 100 0 False @ ''.mat'' = base_name 1000 0 False @ ''.mat''"
    from artifact_name_injective [OF z(1) z(2) z(3) z(2) this] show False by simp
  qed
  have b: "base_name 100 0 False @ ''.mat'' \<noteq> base_name 100 20 False @ ''.mat''"
  proof
    assume "base_name 100 0 False @ ''.mat'' = base_name 100 20 False @ ''.mat''"
    from artifact_name_injective [OF z(1) z(2) z(1) z(4) this] show False by simp
  qed
  have c: "base_name 100 0 False @ ''.mat'' \<noteq> base_name 100 0 True @ ''.mat''"
  proof
    assume "base_name 100 0 False @ ''.mat'' = base_name 100 0 True @ ''.mat''"
    from artifact_name_injective [OF z(1) z(2) z(1) z(2) this] show False by simp
  qed
  from a b c show ?thesis by (intro conjI)
qed

text \<open>
  C9. Every successful access of the property \<open>info\<close> returns a new dict object with
  the entries of the driver's info record. Whatever the caller then does to the returned
  dict (\<open>f\<close> is any mutation), no object that existed before changes, so the driver's
  stored record does not, and the driver's state does not either; and the next access
  of \<open>info\<close> returns what it would have returned without the mutation: a new object with
  the entries of the driver's record. (The driver's record is an object of the driver,
  one that existed before the first access.)
\<close>

theorem info_returns_copy:
  assumes "info d w = (Inr r, w1)"
  shows "\<exists>rd. fst (drv_get_info d (dev w)) = Inr rd \<and> rd < length (heap w)
           \<and> r \<noteq> rd \<and> r = length (heap w)
           \<and> heap w1 ! r = heap w ! rd
           \<and> (\<forall>a < length (heap w). heap w1 ! a = heap w ! a
                  \<and> heap (dict_mutate r f w1) ! a = heap w ! a)
           \<and> dev (dict_mutate r f w1) = dev w1
           \<and> (\<forall>rd2 r2 w2.
                 info d (dict_mutate r f w1) = (Inr r2, w2)
                 \<and> fst (drv_get_info d (dev w1)) = Inr rd2 \<and> rd2 < length (heap w)
                 \<longrightarrow> fst (info d w1) = Inr r2
                     \<and> heap w2 ! r2 = heap w ! rd2
                     \<and> heap (snd (info d w1)) ! r2 = heap w ! rd2)"
proof -
  from info_run [OF assms] obtain rd where
    rd: "drv_get_info d (dev w) = (Inr rd, dev w1)" "rd < length (heap w)"
      "r = length (heap w)" "heap w1 = heap w @ [heap w ! rd]"
    by blast
  have old: "\<forall>a < length (heap w). heap w1 ! a = heap w ! a
                  \<and> heap (dict_mutate r f w1) ! a = heap w ! a"
    by (simp add: rd dict_mutate_def nth_append)
  have again: "\<forall>rd2 r2 w2.
                 info d (dict_mutate r f w1) = (Inr r2, w2)
                 \<and> fst (drv_get_info d (dev w1)) = Inr rd2 \<and> rd2 < length (heap w)
                 \<longrightarrow> fst (info d w1) = Inr r2
                     \<and> heap w2 ! r2 = heap w ! rd2
                     \<and> heap (snd (info d w1)) ! r2 = heap w ! rd2"
  proof (intro allI impI, elim conjE)
    fix rd2 r2 w2
    assume a: "info d (dict_mutate r f w1) = (Inr r2, w2)"
      and b: "fst (drv_get_info d (dev w1)) = Inr rd2" and c: "rd2 < length (heap w)"
    from info_run [OF a] obtain x where
      x: "drv_get_info d (dev (dict_mutate r f w1)) = (Inr x, dev w2)"
        "r2 = length (heap (dict_mutate r f w1))"
        "heap w2 = heap (dict_mutate r f w1) @ [heap (dict_mutate r f w1) ! x]"
      by blast
    have dv: "dev (dict_mutate r f w1) = dev w1" by (simp add: dict_mutate_def)
    from x(1) b dv have xeq: "x = rd2" by simp
    have hm: "heap (dict_mutate r f w1) = heap w @ [f (heap w ! rd)]"
      by (simp add: dict_mutate_def rd(3,4))
    from c have lt: "rd2 < length (heap w1)" by (simp add: rd(4))
    from b obtain s2 where g: "drv_get_info d (dev w1) = (Inr rd2, s2)"
      by (cases "drv_get_info d (dev w1)") auto
    from g lt have plain: "info d w1 = (Inr (length (heap w1)), w1\<lparr>dev := s2, trace := trace w1 @ [GetInfo (Some rd2)],
         heap := heap w1 @ [heap w1 ! rd2]\<rparr>)"
      by (simp add: info_def bnd_def query_def dict_copy_def outcome_def)
    from x(2) hm have r2: "r2 = Suc (length (heap w))" by simp
    from x(3) hm xeq c have h2: "heap w2 = heap w @ [f (heap w ! rd), heap w ! rd2]"
      by (simp add: nth_append)
    from c have h1: "heap w1 @ [heap w1 ! rd2] = heap w @ [heap w ! rd, heap w ! rd2]"
      by (simp add: rd(4) nth_append)
    have n1: "(heap w @ [f (heap w ! rd), heap w ! rd2]) ! Suc (length (heap w)) = heap w ! rd2"
      by (simp add: nth_append)
    have n2: "(heap w @ [heap w ! rd, heap w ! rd2]) ! Suc (length (heap w)) = heap w ! rd2"
      by (simp add: nth_append)
    have l1: "length (heap w1) = Suc (length (heap w))" by (simp add: rd(4))
    show "fst (info d w1) = Inr r2 \<and> heap w2 ! r2 = heap w ! rd2
                     \<and> heap (snd (info d w1)) ! r2 = heap w ! rd2"
      by (simp add: plain r2 h2 h1 n1 n2 l1)
  qed
  show ?thesis
  proof (intro exI [of _ rd] conjI)
    show "fst (drv_get_info d (dev w)) = Inr rd" by (simp add: rd(1))
    show "rd < length (heap w)" by (rule rd(2))
    show "r \<noteq> rd" using rd(2,3) by simp
    show "r = length (heap w)" by (rule rd(3))
    show "heap w1 ! r = heap w ! rd" by (simp add: rd(3,4))
    show "\<forall>a < length (heap w). heap w1 ! a = heap w ! a
                  \<and> heap (dict_mutate r f w1) ! a = heap w ! a" by (rule old)
    show "dev (dict_mutate r f w1) = dev w1" by (simp add: dict_mutate_def)
    show "\<forall>rd2 r2 w2.
                 info d (dict_mutate r f w1) = (Inr r2, w2)
                 \<and> fst (drv_get_info d (dev w1)) = Inr rd2 \<and> rd2 < length (heap w)
                 \<longrightarrow> fst (info d w1) = Inr r2
                     \<and> heap w2 ! r2 = heap w ! rd2
                     \<and> heap (snd (info d w1)) ! r2 = heap w ! rd2" by (rule again)
  qed
qed

theorem info_returns_copy_witness:
  "fst (info standin world0) = Inr 1
   \<and> heap (snd (info standin world0)) ! 1 = heap world0 ! 0
   \<and> heap (dict_mutate 1 (\<lambda>d. []) (snd (info standin world0))) ! 0 = heap world0 ! 0
   \<and> fst (info standin (dict_mutate 1 (\<lambda>d. []) (snd (info standin world0)))) = Inr 2
   \<and> heap (snd (info standin (dict_mutate 1 (\<lambda>d. []) (snd (info standin world0))))) ! 2 = heap world0 ! 0"
proof -
  have res: "fst (info standin world0) = Inr 1" by code_simp
  have run: "info standin world0 = (Inr 1, snd (info standin world0))"
    using res by (simp add: prod_eq_iff)
  have res2: "fst (info standin (dict_mutate 1 (\<lambda>d. []) (snd (info standin world0)))) = Inr 2"
    by code_simp
  have run2: "info standin (dict_mutate 1 (\<lambda>d. []) (snd (info standin world0)))
      = (Inr 2, snd (info standin (dict_mutate 1 (\<lambda>d. []) (snd (info standin world0)))))"
    using res2 by (simp add: prod_eq_iff)
  have rd2: "fst (drv_get_info standin (dev (snd (info standin world0)))) = Inr 0"
    by code_simp
  have len: "length (heap world0) = 1" by code_simp
  have lt: "(0 :: nat) < length (heap world0)" by (simp add: len)
  from info_returns_copy [OF run, of "\<lambda>d. []"] obtain rd where
    a: "rd < length (heap world0)" "heap (snd (info standin world0)) ! 1 = heap world0 ! rd"
      "\<forall>a < length (heap world0). heap (snd (info standin world0)) ! a = heap world0 ! a
           \<and> heap (dict_mutate 1 (\<lambda>d. []) (snd (info standin world0))) ! a = heap world0 ! a"
      "\<forall>rd2 r2 w2.
                 info standin (dict_mutate 1 (\<lambda>d. []) (snd (info standin world0))) = (Inr r2, w2)
                 \<and> fst (drv_get_info standin (dev (snd (info standin world0)))) = Inr rd2 \<and> rd2 < length (heap world0)
                 \<longrightarrow> fst (info standin (snd (info standin world0))) = Inr r2
                     \<and> heap w2 ! r2 = heap world0 ! rd2
                     \<and> heap (snd (info standin (snd (info standin world0)))) ! r2 = heap world0 ! rd2"
    by (elim exE conjE) (rule that; assumption)
  from a(1) len have rd0: "rd = 0" by simp
  from a(3) [rule_format, OF lt]
  have m: "heap (dict_mutate 1 (\<lambda>d. []) (snd (info standin world0))) ! 0 = heap world0 ! 0"
    by (rule conjunct2)
  from a(4) [rule_format, OF conjI [OF run2 conjI [OF rd2 lt]]]
  have n: "heap (snd (info standin (dict_mutate 1 (\<lambda>d. []) (snd (info standin world0))))) ! 2 = heap world0 ! 0"
    by (elim conjE)
  from a(2) have c: "heap (snd (info standin world0)) ! 1 = heap world0 ! 0" unfolding rd0 .
  from res c m res2 n show ?thesis by (intro conjI)
qed




end
